theory Spec2Isabelle
  imports Complex_Main "HOL-Library.Multiset"
begin

section \<open>Data model (scripts/types.ts)\<close>

text \<open>
  A JavaScript string is modelled as a list of characters, one \<open>char\<close> per UTF-16 code
  unit, restricted to the code units below 256 (Latin-1): \<open>length\<close> is the source's
  \<open>.length\<close>. A JavaScript number is modelled by its exact rational value; the
  non-finite doubles (NaN and the infinities) are outside the model. A field that may be
  \<open>null\<close> or absent (\<open>number | null\<close>, \<open>area?: string\<close>) is an \<open>option\<close>.
  The field \<open>id\<close> is named \<open>id'\<close>, since \<open>id\<close> is the identity function of HOL.
\<close>

record Property =
  id' :: string
  tipo :: string
  bairro :: string
  endereco :: string
  lance :: rat
  avaliacao :: "rat option"
  desconto :: "rat option"
  modalidade :: string
  encerramento :: "string option"
  ocupacao :: string
  area :: "string option"
  fonte :: string
  link :: string
  novo :: "bool option"
  prioridade :: "bool option"
  semVagas :: "bool option"
  alertas :: "string list option"
  quartos :: "rat option"
  vagas :: "rat option"
  precoM2 :: "rat option"
  mediaM2Bairro :: "rat option"
  descontoReal :: "rat option"
  score :: "rat option"
  scoreBreakdown :: "string option"

definition MIN_DISCOUNT :: rat where
  "MIN_DISCOUNT = 40"

definition MAX_PRICE :: rat where
  "MAX_PRICE = 800000"

text \<open>
  JavaScript truthiness, as used by \<open>if (property.avaliacao)\<close> and the like: a number
  is truthy when it is neither \<open>null\<close> nor \<open>0\<close>, a string when it is neither absent
  nor empty, an optional boolean when it is \<open>true\<close>.
\<close>

definition truthyNum :: "rat option \<Rightarrow> bool" where
  "truthyNum v = (case v of None \<Rightarrow> False | Some x \<Rightarrow> x \<noteq> 0)"

definition truthyStr :: "string option \<Rightarrow> bool" where
  "truthyStr v = (case v of None \<Rightarrow> False | Some s \<Rightarrow> s \<noteq> [])"

definition truthyBool :: "bool option \<Rightarrow> bool" where
  "truthyBool v = (case v of None \<Rightarrow> False | Some b \<Rightarrow> b)"

section \<open>Utilities (scripts/utils.ts)\<close>

definition meetsFilters :: "Property \<Rightarrow> bool" where
  "meetsFilters property =
     (if desconto property = None \<or> the (desconto property) < MIN_DISCOUNT then False
      else if lance property > MAX_PRICE then False
      else True)"

text \<open>
  The white space of \<open>String.prototype.trim\<close> and of the white-space class of
  regular expressions, among the code units below 256: TAB, LF, VT, FF, CR, SPACE and NBSP.
\<close>

definition isWhiteSpace :: "char \<Rightarrow> bool" where
  "isWhiteSpace c = (of_char c \<in> set [9, 10, 11, 12, 13, 32, 160 :: nat])"

text \<open>
  Unicode decomposition (NFD) followed by the removal of the combining marks U+0300 to
  U+036F, on one Latin-1 code unit: a letter with a canonical decomposition loses its
  mark and keeps its base letter; every other code unit is unchanged.
\<close>

definition stripDiacritic :: "char \<Rightarrow> char" where
  "stripDiacritic c =
     (let n = (of_char c :: nat) in
      if 192 \<le> n \<and> n \<le> 197 then CHR ''A''
      else if n = 199 then CHR ''C''
      else if 200 \<le> n \<and> n \<le> 203 then CHR ''E''
      else if 204 \<le> n \<and> n \<le> 207 then CHR ''I''
      else if n = 209 then CHR ''N''
      else if 210 \<le> n \<and> n \<le> 214 then CHR ''O''
      else if 217 \<le> n \<and> n \<le> 220 then CHR ''U''
      else if n = 221 then CHR ''Y''
      else if 224 \<le> n \<and> n \<le> 229 then CHR ''a''
      else if n = 231 then CHR ''c''
      else if 232 \<le> n \<and> n \<le> 235 then CHR ''e''
      else if 236 \<le> n \<and> n \<le> 239 then CHR ''i''
      else if n = 241 then CHR ''n''
      else if 242 \<le> n \<and> n \<le> 246 then CHR ''o''
      else if 249 \<le> n \<and> n \<le> 252 then CHR ''u''
      else if n = 253 \<or> n = 255 then CHR ''y''
      else c)"

definition toLowerCase :: "char \<Rightarrow> char" where
  "toLowerCase c =
     (let n = (of_char c :: nat) in
      if 65 \<le> n \<and> n \<le> 90 then char_of (n + 32)
      else if 192 \<le> n \<and> n \<le> 222 \<and> n \<noteq> 215 then char_of (n + 32)
      else c)"

definition trim :: "string \<Rightarrow> string" where
  "trim s = rev (dropWhile isWhiteSpace (rev (dropWhile isWhiteSpace s)))"

definition normalizeText :: "string \<Rightarrow> string" where
  "normalizeText text = trim (map toLowerCase (map stripDiacritic text))"

section \<open>The similarity of two strings (package string-similarity)\<close>

text \<open>
  Modelled from the spec: \<open>compareTwoStrings\<close> is imported from the package
  \<open>string-similarity\<close>, which is not part of the repository. The spec describes it as a
  bigram overlap coefficient with values in \<open>[0,1]\<close> and \<open>similarity(x,x) = 1\<close>; the
  definition follows the algorithm the package publishes (version 4), the Dice coefficient
  of the two multisets of bigrams, computed after all white space is removed:
  \<^verbatim>\<open>
  first = first.replace(/\s+/g, '')
  second = second.replace(/\s+/g, '')
  if (first === second) return 1;
  if (first.length < 2 || second.length < 2) return 0;
  let firstBigrams = new Map();
  for (let i = 0; i < first.length - 1; i++) {
    const bigram = first.substring(i, i + 2);
    const count = firstBigrams.has(bigram) ? firstBigrams.get(bigram) + 1 : 1;
    firstBigrams.set(bigram, count);
  }
  let intersectionSize = 0;
  for (let i = 0; i < second.length - 1; i++) {
    const bigram = second.substring(i, i + 2);
    const count = firstBigrams.has(bigram) ? firstBigrams.get(bigram) : 0;
    if (count > 0) { firstBigrams.set(bigram, count - 1); intersectionSize++; }
  }
  return (2.0 * intersectionSize) / (first.length + second.length - 2);
  \<close>
  The quotient is modelled exactly. The source compares its correctly rounded double
  with the double nearest to 0.85; for strings of fewer than \<open>10^14\<close> code units the
  two comparisons agree, since a quotient \<open>2k/n\<close> other than \<open>17/20\<close> differs from it by
  at least \<open>1/(20n)\<close>.
\<close>

fun bigrams :: "string \<Rightarrow> string list" where
  "bigrams (a # b # s) = [a, b] # bigrams (b # s)"
| "bigrams s = []"

definition addBigram :: "(string \<rightharpoonup> nat) \<Rightarrow> string \<Rightarrow> (string \<rightharpoonup> nat)" where
  "addBigram firstBigrams bigram =
     (let count = (case firstBigrams bigram of Some c \<Rightarrow> c + 1 | None \<Rightarrow> 1)
      in firstBigrams(bigram \<mapsto> count))"

definition matchBigram :: "(string \<rightharpoonup> nat) \<times> nat \<Rightarrow> string \<Rightarrow> (string \<rightharpoonup> nat) \<times> nat" where
  "matchBigram st bigram =
     (case st of (firstBigrams, intersectionSize) \<Rightarrow>
        let count = (case firstBigrams bigram of Some c \<Rightarrow> c | None \<Rightarrow> 0)
        in if count > 0 then (firstBigrams(bigram \<mapsto> count - 1), intersectionSize + 1)
           else (firstBigrams, intersectionSize))"

text \<open>\<open>s.replace(/\s+/g, '')\<close>: every white-space character is dropped.\<close>

definition removeWhiteSpace :: "string \<Rightarrow> string" where
  "removeWhiteSpace s = filter (\<lambda>c. \<not> isWhiteSpace c) s"

text \<open>
  Modelled from the spec: the function \<open>compareTwoStrings\<close> of the package, over the
  two loops above.
\<close>

definition compareTwoStrings :: "string \<Rightarrow> string \<Rightarrow> rat" where
  "compareTwoStrings first0 second0 =
     (let first = removeWhiteSpace first0;
          second = removeWhiteSpace second0
      in if first = second then 1
         else if length first < 2 \<or> length second < 2 then 0
         else
           let firstBigrams = foldl addBigram Map.empty (bigrams first);
               intersectionSize = snd (foldl matchBigram (firstBigrams, 0) (bigrams second))
           in (2 * of_nat intersectionSize) / of_nat (length first + length second - 2))"

section \<open>Deduplication (scripts/deduplicate.ts)\<close>

definition ADDRESS_SIMILARITY_THRESHOLD :: rat where
  "ADDRESS_SIMILARITY_THRESHOLD = 85 / 100"

text \<open>
  The string literal that \<open>scoreProperty\<close> compares \<open>modalidade\<close> with: the word
  \<open>Leilao\<close> written with a tilde on the \<open>a\<close>, whose fifth code unit is U+00E3.
\<close>

definition Leilao :: string where
  "Leilao = ''Leil'' @ [CHR 0xE3] @ ''o''"

definition scoreProperty :: "Property \<Rightarrow> int" where
  "scoreProperty property =
     (let score = 0;
          score = (if truthyNum (avaliacao property) then score + 3 else score);
          score = (if truthyNum (desconto property) then score + 3 else score);
          score = (if truthyStr (area property) then score + 2 else score);
          score = (if truthyStr (encerramento property) then score + 1 else score);
          score = (if ocupacao property \<noteq> ''desconhecido'' then score + 2 else score);
          score = (if length (endereco property) > 20 then score + 1 else score);
          score = (if modalidade property \<noteq> [] \<and> modalidade property \<noteq> Leilao
                   then score + 1 else score)
      in score)"

definition shouldReplace :: "Property \<Rightarrow> Property \<Rightarrow> bool" where
  "shouldReplace existing newProp =
     (let existingScore = scoreProperty existing;
          newScore = scoreProperty newProp
      in if newScore > existingScore then True
         else if newScore = existingScore
           then (if truthyNum (desconto newProp) \<and> \<not> truthyNum (desconto existing) then True
                 else if truthyNum (avaliacao newProp) \<and> \<not> truthyNum (avaliacao existing) then True
                 else False)
         else False)"

text \<open>\<open>Array.prototype.findIndex\<close>; \<open>None\<close> stands for the source's \<open>-1\<close>.\<close>

fun findIndex :: "('a \<Rightarrow> bool) \<Rightarrow> 'a list \<Rightarrow> nat option" where
  "findIndex P [] = None"
| "findIndex P (x # xs) = (if P x then Some 0 else map_option Suc (findIndex P xs))"

text \<open>
  \<open>Set.prototype.add\<close> on a \<open>Set\<close> kept as the list of its elements in insertion
  order, which is the order a \<open>for ... of\<close> loop visits them in.
\<close>

definition setAdd :: "'a list \<Rightarrow> 'a \<Rightarrow> 'a list" where
  "setAdd seen x = (if x \<in> set seen then seen else seen @ [x])"

text \<open>
  One round of the outer loop over \<open>allProperties\<close>. The state is the pair of
  \<open>deduplicated\<close> and \<open>seen\<close>. The inner loop stops at the first seen address that is
  similar enough (\<open>break\<close>), which is what \<open>find\<close> returns.
\<close>

definition dedupStep :: "Property list \<times> string list \<Rightarrow> Property \<Rightarrow> Property list \<times> string list" where
  "dedupStep st property =
     (let deduplicated = fst st;
          seen = snd st;
          normalizedAddress = normalizeText (endereco property)
      in (case find (\<lambda>existingAddress.
                       compareTwoStrings normalizedAddress existingAddress
                         \<ge> ADDRESS_SIMILARITY_THRESHOLD) seen of
            Some existingAddress \<Rightarrow>
              (case findIndex (\<lambda>p. compareTwoStrings (normalizeText (endereco p)) existingAddress
                                      \<ge> ADDRESS_SIMILARITY_THRESHOLD) deduplicated of
                 Some existingIndex \<Rightarrow>
                   (let existing = deduplicated ! existingIndex in
                    if shouldReplace existing property
                    then (deduplicated[existingIndex := property], seen)
                    else (deduplicated, seen))
               | None \<Rightarrow> (deduplicated, seen))
          | None \<Rightarrow> (deduplicated @ [property], setAdd seen normalizedAddress)))"

definition dedupLoop :: "Property list \<Rightarrow> Property list \<times> string list" where
  "dedupLoop allProperties = foldl dedupStep ([], []) allProperties"

text \<open>The comparison function handed to \<open>deduplicated.sort\<close>.\<close>

definition compareFn :: "Property \<Rightarrow> Property \<Rightarrow> rat" where
  "compareFn a b =
     (if prioridade a \<noteq> prioridade b then (if truthyBool (prioridade a) then - 1 else 1)
      else
        let discountA = (if truthyNum (desconto a) then the (desconto a) else 0);
            discountB = (if truthyNum (desconto b) then the (desconto b) else 0)
        in if discountA \<noteq> discountB then discountB - discountA
           else lance a - lance b)"

text \<open>
  \<open>Array.prototype.sort\<close> is a stable sort (ECMAScript 2019): of two elements the later
  one moves in front only when the comparison function puts it strictly first. It is
  modelled by stable insertion. When the comparison function is a consistent ordering of
  the elements, every stable sort returns the same list, and the model is the engine's
  result. When it is not, which for \<open>compareFn\<close> means records that mix an absent
  \<open>prioridade\<close> with \<open>false\<close>, ECMAScript leaves the order to the implementation; the
  model then agrees with the engines on an array of two elements and on the result being
  a permutation, and on longer arrays its order is that of insertion, not necessarily the
  engine's.
\<close>

fun insertSorted :: "('a \<Rightarrow> 'a \<Rightarrow> rat) \<Rightarrow> 'a \<Rightarrow> 'a list \<Rightarrow> 'a list" where
  "insertSorted cmp x [] = [x]"
| "insertSorted cmp x (y # ys) =
     (if cmp y x < 0 then y # insertSorted cmp x ys else x # y # ys)"

fun arraySort :: "('a \<Rightarrow> 'a \<Rightarrow> rat) \<Rightarrow> 'a list \<Rightarrow> 'a list" where
  "arraySort cmp [] = []"
| "arraySort cmp (x # xs) = insertSorted cmp x (arraySort cmp xs)"

definition deduplicateProperties :: "Property list list \<Rightarrow> Property list" where
  "deduplicateProperties sources =
     (let allProperties = concat sources;
          deduplicated = fst (dedupLoop allProperties)
      in arraySort compareFn deduplicated)"

definition markNewProperties :: "Property list \<Rightarrow> Property list \<Rightarrow> Property list" where
  "markNewProperties current previous =
     (let previousIds = set (map id' previous)
      in map (\<lambda>property. property\<lparr>novo := Some (id' property \<notin> previousIds)\<rparr>) current)"

section \<open>markNewProperties on an explicit store\<close>

text \<open>
  To say that \<open>markNewProperties\<close> leaves its arguments alone, the same function is
  written over a store. A store is a list of cells and an address is an index into it: an
  object cell holds a record, an array cell holds the addresses of its elements. The
  strings of a record and its optional \<open>alertas\<close> list are kept as values inside the
  object cell; the function never writes to them.
\<close>

datatype cell = Obj Property | Arr "nat list"

type_synonym store = "cell list"

text \<open>
  An object literal and \<open>Array.prototype.map\<close> create a new object: the new cell is
  appended, so its address is none of the existing ones.
\<close>

definition alloc :: "store \<Rightarrow> cell \<Rightarrow> store \<times> nat" where
  "alloc h c = (h @ [c], length h)"

text \<open>
  Reading an address as an object or as an array; \<open>None\<close> when the address holds no
  cell of that kind, where the source would throw a \<open>TypeError\<close>.
\<close>

definition getObj :: "store \<Rightarrow> nat \<Rightarrow> Property option" where
  "getObj h a = (if a < length h then (case h ! a of Obj p \<Rightarrow> Some p | Arr rs \<Rightarrow> None) else None)"

definition getArr :: "store \<Rightarrow> nat \<Rightarrow> nat list option" where
  "getArr h a = (if a < length h then (case h ! a of Arr rs \<Rightarrow> Some rs | Obj p \<Rightarrow> None) else None)"

text \<open>The records an array holds, in order.\<close>

fun readAll :: "store \<Rightarrow> nat list \<Rightarrow> Property list option" where
  "readAll h [] = Some []"
| "readAll h (r # rs) =
     (case getObj h r of
        None \<Rightarrow> None
      | Some p \<Rightarrow> (case readAll h rs of None \<Rightarrow> None | Some ps \<Rightarrow> Some (p # ps)))"

definition readArray :: "store \<Rightarrow> nat \<Rightarrow> Property list option" where
  "readArray h a = (case getArr h a of None \<Rightarrow> None | Some rs \<Rightarrow> readAll h rs)"

text \<open>
  \<open>current.map(property => ({...property, novo: !previousIds.has(property.id)}))\<close>:
  the elements are visited in order, and each call of the arrow function reads the element
  and allocates the object literal, a copy of the element with \<open>novo\<close> set. \<open>out\<close>
  collects the addresses of the new objects.
\<close>

fun mapSpread :: "string set \<Rightarrow> store \<Rightarrow> nat list \<Rightarrow> nat list \<Rightarrow> (store \<times> nat list) option" where
  "mapSpread previousIds h [] out = Some (h, out)"
| "mapSpread previousIds h (r # rs) out =
     (case getObj h r of
        None \<Rightarrow> None
      | Some property \<Rightarrow>
          (case alloc h (Obj (property\<lparr>novo := Some (id' property \<notin> previousIds)\<rparr>)) of
             (h', r') \<Rightarrow> mapSpread previousIds h' rs (out @ [r'])))"

text \<open>
  \<open>previous.map(p => p.id)\<close> and \<open>new Set\<close> read the records of \<open>previous\<close> and
  build a set of strings, which is a value. The array that \<open>current.map\<close> returns is
  allocated here after its elements; the source allocates it before them, which changes
  the addresses and not what any cell holds.
\<close>

definition markNewProperties_store :: "store \<Rightarrow> nat \<Rightarrow> nat \<Rightarrow> (store \<times> nat) option" where
  "markNewProperties_store h current previous =
     (case readArray h previous of
        None \<Rightarrow> None
      | Some prev \<Rightarrow>
          (let previousIds = set (map id' prev) in
           case getArr h current of
             None \<Rightarrow> None
           | Some refs \<Rightarrow>
               (case mapSpread previousIds h refs [] of
                  None \<Rightarrow> None
                | Some (h', out) \<Rightarrow> Some (alloc h' (Arr out)))))"

section \<open>Example records\<close>

text \<open>
  The three records of the spec's end-to-end scenario. The fields the scenario leaves open
  are filled in as the scrapers would: the discount is the rounded percentage, \<open>modalidade\<close>
  is the default, nothing else is known.
\<close>

definition scenarioA :: Property where
  "scenarioA =
     \<lparr> id' = ''a-1'', tipo = ''Apartamento'', bairro = ''Batel'',
       endereco = ''Rua das Flores, 123 - Batel'', lance = 300000,
       avaliacao = Some 500000, desconto = Some 40, modalidade = Leilao,
       encerramento = None, ocupacao = ''desconhecido'', area = None,
       fonte = ''a'', link = ''https://a.example/1'', novo = None,
       prioridade = Some True, semVagas = None, alertas = None, quartos = None,
       vagas = None, precoM2 = None, mediaM2Bairro = None, descontoReal = None,
       score = None, scoreBreakdown = None \<rparr>"

definition scenarioB :: Property where
  "scenarioB =
     scenarioA \<lparr> id' := ''b-1'', endereco := ''R. das Flores 123 - Batel'',
                 lance := 310000, desconto := Some 38, fonte := ''b'',
                 link := ''https://b.example/1'' \<rparr>"

definition scenarioC :: Property where
  "scenarioC =
     scenarioA \<lparr> id' := ''c-1'', bairro := ''Centro'',
                 endereco := ''Av. Central, 45 - Centro'', lance := 900000,
                 avaliacao := Some 1000000, desconto := Some 10, fonte := ''c'',
                 link := ''https://c.example/1'' \<rparr>"

text \<open>
  A chain of three addresses of 21 letters each, every bigram of which occurs once: the
  second differs from the first in one letter (18 of 20 bigrams shared), the third from the
  second in one more letter (18 shared with the second, 16 with the first). The second
  record also knows its area, so its score is higher.
\<close>

definition chain1 :: Property where
  "chain1 = scenarioA \<lparr> id' := ''x-1'', endereco := ''abcdefghijklmnopqrstu'' \<rparr>"

definition chain2 :: Property where
  "chain2 = scenarioA \<lparr> id' := ''x-2'', endereco := ''abcdexghijklmnopqrstu'',
                        area := Some ''50m2'' \<rparr>"

definition chain3 :: Property where
  "chain3 = scenarioA \<lparr> id' := ''x-3'', endereco := ''abcdexghijklmnoyqrstu'' \<rparr>"

text \<open>
  An address that shares exactly 17 of its 20 bigrams with that of \<open>chain1\<close>: the
  similarity is \<open>34/40\<close>, the threshold itself.
\<close>

definition onThreshold :: Property where
  "onThreshold = scenarioA \<lparr> id' := ''x-4'', endereco := ''abcdefghixklmnopqrsty'' \<rparr>"


text \<open>
  Two records with the address of scenario record A and the same score: the first has a
  discount and no appraised value, the second an appraised value and no discount.
\<close>

definition onlyDiscount :: Property where
  "onlyDiscount = scenarioA \<lparr> id' := ''d-1'', avaliacao := None, desconto := Some 50 \<rparr>"

definition onlyAppraisal :: Property where
  "onlyAppraisal = scenarioA \<lparr> id' := ''d-2'', avaliacao := Some 500000, desconto := None \<rparr>"

text \<open>
  A record whose bid equals its appraised value: \<open>calculateDiscount\<close> gives it the
  discount \<open>0\<close>, which is a number and not \<open>null\<close>.
\<close>

definition zeroDiscount :: Property where
  "zeroDiscount = scenarioA \<lparr> id' := ''z-1'', lance := 500000, desconto := Some 0 \<rparr>"

text \<open>
  Two records outside the priority neighbourhoods, with unlike addresses: the first has
  no \<open>prioridade\<close> field (the field is optional in \<open>Property\<close>), the second has it set
  to \<open>false\<close> and has the higher discount.
\<close>

definition noPriorityField :: Property where
  "noPriorityField =
     scenarioA \<lparr> id' := ''u-1'', bairro := ''Pinhais'', lance := 250000,
                 desconto := Some 50, prioridade := None \<rparr>"

definition priorityFalse :: Property where
  "priorityFalse =
     scenarioC \<lparr> id' := ''u-2'', bairro := ''Colombo'', lance := 400000,
                 desconto := Some 60, prioridade := Some False \<rparr>"

text \<open>
  A record at an unlike address with a higher score than the chain records: it knows its
  area.
\<close>

definition otherStreet :: Property where
  "otherStreet = scenarioC \<lparr> id' := ''x-5'', lance := 600000, desconto := Some 40, area := Some ''80m2'' \<rparr>"

text \<open>
  A store with the two scenario records at the addresses 0 and 1, the array of both at
  address 2 and the array of the second at address 3.
\<close>

definition exampleStore :: store where
  "exampleStore = [Obj scenarioA, Obj scenarioB, Arr [0, 1], Arr [1]]"

section \<open>Notions the properties are stated with\<close>

text \<open>
  The completeness score as the spec words it, with \<open>present\<close> read as \<open>not null\<close>
  (not absent, for the optional \<open>area\<close>; not empty, for the string \<open>modalidade\<close>, which
  is never null).
\<close>

definition scoreAsStated :: "Property \<Rightarrow> int" where
  "scoreAsStated p =
     (if avaliacao p \<noteq> None then 3 else 0)
     + (if desconto p \<noteq> None then 3 else 0)
     + (if area p \<noteq> None then 2 else 0)
     + (if ocupacao p \<noteq> ''desconhecido'' then 2 else 0)
     + (if encerramento p \<noteq> None then 1 else 0)
     + (if length (endereco p) > 20 then 1 else 0)
     + (if modalidade p \<noteq> [] \<and> modalidade p \<noteq> Leilao then 1 else 0)"

text \<open>
  The seven conditions \<open>scoreProperty\<close> tests, in the order of the spec's list.
\<close>

definition scoredFields :: "Property \<Rightarrow> bool list" where
  "scoredFields p =
     [truthyNum (avaliacao p), truthyNum (desconto p), truthyStr (area p),
      ocupacao p \<noteq> ''desconhecido'', truthyStr (encerramento p),
      length (endereco p) > 20, modalidade p \<noteq> [] \<and> modalidade p \<noteq> Leilao]"

text \<open>
  The ranking of the spec: priority first, then the discount descending with a missing
  discount counted as 0, then the bid ascending. \<open>sortKey\<close> is the triple a record is
  ranked by, \<open>rankedBefore a b\<close> says that \<open>a\<close> may stand before \<open>b\<close>.
\<close>

definition discountOr0 :: "Property \<Rightarrow> rat" where
  "discountOr0 p = (case desconto p of None \<Rightarrow> 0 | Some x \<Rightarrow> x)"

definition sortKey :: "Property \<Rightarrow> bool \<times> rat \<times> rat" where
  "sortKey p = (truthyBool (prioridade p), discountOr0 p, lance p)"

definition rankedBefore :: "Property \<Rightarrow> Property \<Rightarrow> bool" where
  "rankedBefore a b =
     ((truthyBool (prioridade a) \<and> \<not> truthyBool (prioridade b))
      \<or> (truthyBool (prioridade a) = truthyBool (prioridade b)
          \<and> (discountOr0 a > discountOr0 b
              \<or> (discountOr0 a = discountOr0 b \<and> lance a \<le> lance b))))"

text \<open>
  The count a bigram has in the \<open>Map\<close> of \<open>compareTwoStrings\<close>, a missing key counting
  as 0.
\<close>

definition bigramCount :: "(string \<rightharpoonup> nat) \<Rightarrow> string \<Rightarrow> nat" where
  "bigramCount m bigram = (case m bigram of Some c \<Rightarrow> c | None \<Rightarrow> 0)"

text \<open>The normalized address of a record, the key the engine compares.\<close>

definition addressKey :: "Property \<Rightarrow> string" where
  "addressKey p = normalizeText (endereco p)"


text \<open>
  No record of the list would replace an earlier record whose normalized address is as
  similar as the threshold to its own.
\<close>

definition keepsEarlier :: "Property list \<Rightarrow> bool" where
  "keepsEarlier ps =
     sorted_wrt (\<lambda>a b. compareTwoStrings (addressKey b) (addressKey a)
                          \<ge> ADDRESS_SIMILARITY_THRESHOLD \<longrightarrow> \<not> shouldReplace a b) ps"

text \<open>The same as \<open>unlikeEarlier\<close> for the addresses of the seen set, in insertion order.\<close>

definition seenUnlike :: "string list \<Rightarrow> bool" where
  "seenUnlike seen =
     sorted_wrt (\<lambda>e l. compareTwoStrings l e < ADDRESS_SIMILARITY_THRESHOLD) seen"


text \<open>
  The records of a list carry \<open>prioridade\<close> consistently when two records that are
  both priority or both not have the same field value: the list does not mix an absent
  \<open>prioridade\<close> with \<open>false\<close>. Every list whose records all have the field set is
  consistent.
\<close>

definition prioridadeConsistent :: "Property list \<Rightarrow> bool" where
  "prioridadeConsistent xs =
     (\<forall>a \<in> set xs. \<forall>b \<in> set xs.
        truthyBool (prioridade a) = truthyBool (prioridade b) \<longrightarrow> prioridade a = prioridade b)"

section \<open>Auxiliary facts\<close>

lemma findIndex_Some: "findIndex P xs = Some i \<Longrightarrow> i < length xs \<and> P (xs ! i)"
  by (induction xs arbitrary: i) (auto split: if_splits)

lemma findIndex_None: "findIndex P xs = None \<longleftrightarrow> (\<forall>x \<in> set xs. \<not> P x)"
  by (induction xs) auto

lemma compareTwoStrings_refl: "compareTwoStrings x x = 1"
  by (simp add: compareTwoStrings_def)

lemma threshold_le_1: "ADDRESS_SIMILARITY_THRESHOLD \<le> 1"
  by (simp add: ADDRESS_SIMILARITY_THRESHOLD_def)

subsection \<open>The similarity is the Dice coefficient of the bigram multisets\<close>

lemma bigramCount_add: "bigramCount (addBigram m b) x = bigramCount m x + (if x = b then 1 else 0)"
  by (simp add: bigramCount_def addBigram_def Let_def split: option.splits)

lemma bigramCount_foldl_add:
  "bigramCount (foldl addBigram m bs) x = bigramCount m x + count (mset bs) x"
  by (induction bs arbitrary: m) (simp_all add: bigramCount_add)

lemma bigramCount_empty: "bigramCount Map.empty x = 0"
  by (simp add: bigramCount_def)

lemma matchBigram_hit:
  "0 < bigramCount m b \<Longrightarrow>
     matchBigram (m, n) b = (m(b \<mapsto> bigramCount m b - 1), n + 1)"
  by (simp add: matchBigram_def bigramCount_def Let_def)

lemma matchBigram_miss: "bigramCount m b = 0 \<Longrightarrow> matchBigram (m, n) b = (m, n)"
  by (simp add: matchBigram_def bigramCount_def Let_def)

lemma foldl_matchBigram_size:
  "(\<And>x. bigramCount m x = count M x) \<Longrightarrow>
     snd (foldl matchBigram (m, n) bs) = n + size (M \<inter># mset bs)"
proof (induction bs arbitrary: m n M)
  case Nil
  show ?case by simp
next
  case (Cons b bs)
  show ?case
  proof (cases "b \<in># M")
    case True
    then have pos: "0 < bigramCount m b" using Cons.prems [of b] by simp
    let ?m = "m(b \<mapsto> bigramCount m b - 1)"
    have rep: "\<And>x. bigramCount ?m x = count (M - {#b#}) x"
      using Cons.prems by (simp add: bigramCount_def)
    have "snd (foldl matchBigram (?m, n + 1) bs) = n + 1 + size ((M - {#b#}) \<inter># mset bs)"
      by (rule Cons.IH [OF rep])
    moreover have "M \<inter># add_mset b (mset bs) = add_mset b ((M - {#b#}) \<inter># mset bs)"
      using True by (simp add: inter_add_right2)
    ultimately show ?thesis using pos by (simp add: matchBigram_hit)
  next
    case False
    then have z: "bigramCount m b = 0" using Cons.prems [of b] by (simp add: not_in_iff)
    have "snd (foldl matchBigram (m, n) bs) = n + size (M \<inter># mset bs)"
      by (rule Cons.IH [OF Cons.prems])
    moreover have "M \<inter># add_mset b (mset bs) = M \<inter># mset bs"
      using False by (simp add: inter_add_right1)
    ultimately show ?thesis using z by (simp add: matchBigram_miss)
  qed
qed

lemma compareTwoStrings_dice:
  "compareTwoStrings a b =
     (if removeWhiteSpace a = removeWhiteSpace b then 1
      else if length (removeWhiteSpace a) < 2 \<or> length (removeWhiteSpace b) < 2 then 0
      else (2 * of_nat (size (mset (bigrams (removeWhiteSpace a)) \<inter># mset (bigrams (removeWhiteSpace b)))))
             / of_nat (length (removeWhiteSpace a) + length (removeWhiteSpace b) - 2))"
proof -
  have "snd (foldl matchBigram (foldl addBigram Map.empty (bigrams (removeWhiteSpace a)), 0) (bigrams (removeWhiteSpace b)))
        = 0 + size (mset (bigrams (removeWhiteSpace a)) \<inter># mset (bigrams (removeWhiteSpace b)))"
    by (rule foldl_matchBigram_size) (simp add: bigramCount_foldl_add bigramCount_empty)
  then show ?thesis
    by (simp add: compareTwoStrings_def Let_def)
qed

lemma compareTwoStrings_sym: "compareTwoStrings a b = compareTwoStrings b a"
  by (simp add: compareTwoStrings_dice subset_mset.inf_commute add.commute eq_commute [of "removeWhiteSpace a"])

lemma length_bigrams: "length (bigrams s) = length s - 1"
  by (induction s rule: bigrams.induct) auto

lemma compareTwoStrings_range: "0 \<le> compareTwoStrings a b \<and> compareTwoStrings a b \<le> 1"
proof (cases "removeWhiteSpace a = removeWhiteSpace b \<or> length (removeWhiteSpace a) < 2 \<or> length (removeWhiteSpace b) < 2")
  case True
  then show ?thesis by (auto simp: compareTwoStrings_dice)
next
  case False
  let ?A = "mset (bigrams (removeWhiteSpace a))" and ?B = "mset (bigrams (removeWhiteSpace b))"
  have "size (?A \<inter># ?B) \<le> size ?A" "size (?A \<inter># ?B) \<le> size ?B"
    using size_mset_mono [OF subset_mset.inf_le1 [of ?A ?B]]
      size_mset_mono [OF subset_mset.inf_le2 [of ?A ?B]] by simp_all
  then have le: "2 * size (?A \<inter># ?B) \<le> length (removeWhiteSpace a) + length (removeWhiteSpace b) - 2"
    using False by (simp add: length_bigrams)
  have "(2 * of_nat (size (?A \<inter># ?B)) :: rat) = of_nat (2 * size (?A \<inter># ?B))" by simp
  also have "\<dots> \<le> of_nat (length (removeWhiteSpace a) + length (removeWhiteSpace b) - 2)"
    using le by (rule of_nat_mono)
  finally have "(2 * of_nat (size (?A \<inter># ?B)) :: rat)
      \<le> of_nat (length (removeWhiteSpace a) + length (removeWhiteSpace b) - 2)" .
  then show ?thesis
    using False by (simp add: compareTwoStrings_dice divide_le_eq_1)
qed

subsection \<open>The loop only moves input records around\<close>

lemma mset_update_sub: "i < length d \<Longrightarrow> mset (d[i := p]) \<subseteq># add_mset p (mset d)"
  by (simp add: mset_update)

lemma dedupStep_mset: "mset (fst (dedupStep st p)) \<subseteq># add_mset p (mset (fst st))"
  by (auto simp: dedupStep_def Let_def mset_update_sub dest: findIndex_Some split: option.splits)

lemma foldl_dedupStep_mset: "mset (fst (foldl dedupStep st ps)) \<subseteq># mset (fst st) + mset ps"
proof (induction ps arbitrary: st)
  case Nil
  show ?case by simp
next
  case (Cons p ps)
  have "mset (fst (foldl dedupStep (dedupStep st p) ps)) \<subseteq># mset (fst (dedupStep st p)) + mset ps"
    by (rule Cons.IH)
  also have "\<dots> \<subseteq># add_mset p (mset (fst st)) + mset ps"
    using dedupStep_mset [of st p] by (simp add: subset_mset.add_right_mono)
  finally show ?case by simp
qed

lemma mset_insertSorted: "mset (insertSorted cmp x ys) = add_mset x (mset ys)"
  by (induction ys) auto

lemma mset_arraySort: "mset (arraySort cmp xs) = mset xs"
  by (induction xs) (auto simp: mset_insertSorted)

subsection \<open>The two outcomes of one round\<close>

lemma dedupStep_new:
  assumes "\<forall>ea \<in> set seen.
             compareTwoStrings (normalizeText (endereco p)) ea < ADDRESS_SIMILARITY_THRESHOLD"
  shows "dedupStep (d, seen) p = (d @ [p], seen @ [normalizeText (endereco p)])"
proof -
  let ?na = "normalizeText (endereco p)"
  have f: "find (\<lambda>ea. compareTwoStrings ?na ea \<ge> ADDRESS_SIMILARITY_THRESHOLD) seen = None"
    using assms by (auto simp: find_None_iff)
  have "?na \<notin> set seen"
  proof
    assume "?na \<in> set seen"
    with assms have "compareTwoStrings ?na ?na < ADDRESS_SIMILARITY_THRESHOLD" by blast
    then show False using threshold_le_1 by (simp add: compareTwoStrings_refl)
  qed
  then show ?thesis using f by (simp add: dedupStep_def setAdd_def)
qed

lemma dedupStep_dup:
  assumes "ea \<in> set seen"
    and "compareTwoStrings (normalizeText (endereco p)) ea \<ge> ADDRESS_SIMILARITY_THRESHOLD"
  shows "snd (dedupStep (d, seen) p) = seen \<and> length (fst (dedupStep (d, seen) p)) = length d"
proof -
  let ?na = "normalizeText (endereco p)"
  have "find (\<lambda>ea. compareTwoStrings ?na ea \<ge> ADDRESS_SIMILARITY_THRESHOLD) seen \<noteq> None"
    using assms by (auto simp: find_None_iff)
  then show ?thesis by (auto simp: dedupStep_def Let_def split: option.splits)
qed

lemma dedupStep_dup_shape:
  assumes "ea \<in> set seen"
    and "compareTwoStrings (normalizeText (endereco p)) ea \<ge> ADDRESS_SIMILARITY_THRESHOLD"
  shows "fst (dedupStep (d, seen) p) = d
         \<or> (\<exists>i < length d. fst (dedupStep (d, seen) p) = d[i := p])"
proof -
  let ?na = "normalizeText (endereco p)"
  have "find (\<lambda>ea. compareTwoStrings ?na ea \<ge> ADDRESS_SIMILARITY_THRESHOLD) seen \<noteq> None"
    using assms by (auto simp: find_None_iff)
  then show ?thesis
    by (auto simp: dedupStep_def Let_def dest: findIndex_Some split: option.splits)
qed

subsection \<open>The sort\<close>







lemma discount_or0: "(if truthyNum (desconto a) then the (desconto a) else 0) = discountOr0 a"
  by (auto simp: truthyNum_def discountOr0_def split: option.splits)

lemma compareFn_alt:
  "compareFn a b =
     (if prioridade a \<noteq> prioridade b then (if truthyBool (prioridade a) then - 1 else 1)
      else if discountOr0 a \<noteq> discountOr0 b then discountOr0 b - discountOr0 a
      else lance a - lance b)"
  by (simp add: compareFn_def Let_def discount_or0)

lemma compareFn_less_key: "compareFn y x < 0 \<Longrightarrow> sortKey y \<noteq> sortKey x"
  by (auto simp: compareFn_alt sortKey_def truthyBool_def split: if_splits option.splits)

lemma compareFn_less_iff:
  assumes "truthyBool (prioridade a) = truthyBool (prioridade b) \<longrightarrow> prioridade a = prioridade b"
  shows "compareFn a b < 0 \<longleftrightarrow> \<not> rankedBefore b a"
  using assms by (auto simp: compareFn_alt rankedBefore_def truthyBool_def split: option.splits)

lemma rankedBefore_total: "rankedBefore a b \<or> rankedBefore b a"
  by (auto simp: rankedBefore_def)

lemma rankedBefore_trans: "rankedBefore a b \<Longrightarrow> rankedBefore b c \<Longrightarrow> rankedBefore a c"
  by (auto simp: rankedBefore_def)

lemma set_insertSorted: "set (insertSorted cmp x ys) = insert x (set ys)"
  by (induction ys) auto

lemma set_arraySort: "set (arraySort cmp xs) = set xs"
  by (induction xs) (auto simp: set_insertSorted)

lemma sorted_insertSorted:
  "prioridadeConsistent (x # ys) \<Longrightarrow> sorted_wrt rankedBefore ys \<Longrightarrow>
     sorted_wrt rankedBefore (insertSorted compareFn x ys)"
proof (induction ys)
  case Nil
  show ?case by simp
next
  case (Cons y ys)
  have cons: "truthyBool (prioridade y) = truthyBool (prioridade x) \<longrightarrow> prioridade y = prioridade x"
    using Cons.prems(1) by (simp add: prioridadeConsistent_def)
  have sub: "prioridadeConsistent (x # ys)"
    using Cons.prems(1) by (simp add: prioridadeConsistent_def)
  show ?case
  proof (cases "compareFn y x < 0")
    case True
    then have yx: "rankedBefore y x"
      using compareFn_less_iff [OF cons] rankedBefore_total [of y x] by blast
    have "sorted_wrt rankedBefore (insertSorted compareFn x ys)"
      using Cons.IH [OF sub] Cons.prems(2) by simp
    then show ?thesis using True yx Cons.prems(2) by (simp add: set_insertSorted)
  next
    case False
    then have xy: "rankedBefore x y" using compareFn_less_iff [OF cons] by blast
    have "\<forall>z \<in> set ys. rankedBefore x z"
      using xy Cons.prems(2) by (auto intro: rankedBefore_trans)
    then show ?thesis using False xy Cons.prems(2) by simp
  qed
qed

lemma sorted_arraySort:
  "prioridadeConsistent xs \<Longrightarrow> sorted_wrt rankedBefore (arraySort compareFn xs)"
proof (induction xs)
  case Nil
  show ?case by simp
next
  case (Cons x xs)
  have sub: "prioridadeConsistent xs"
    using Cons.prems by (simp add: prioridadeConsistent_def)
  have "prioridadeConsistent (x # arraySort compareFn xs)"
    using Cons.prems by (simp add: prioridadeConsistent_def set_arraySort)
  then show ?case using Cons.IH [OF sub] by (simp add: sorted_insertSorted)
qed

lemma filter_insertSorted:
  "filter (\<lambda>p. sortKey p = k) (insertSorted compareFn x ys)
     = filter (\<lambda>p. sortKey p = k) (x # ys)"
  by (induction ys) (auto dest: compareFn_less_key)

lemma filter_arraySort:
  "filter (\<lambda>p. sortKey p = k) (arraySort compareFn xs) = filter (\<lambda>p. sortKey p = k) xs"
  by (induction xs) (simp_all add: filter_insertSorted)

subsection \<open>Invariants of the loop\<close>



lemma dedupStep_inv:
  assumes "length d = length seen" "distinct seen" "seenUnlike seen"
  shows "length (fst (dedupStep (d, seen) p)) = length (snd (dedupStep (d, seen) p))
     \<and> distinct (snd (dedupStep (d, seen) p)) \<and> seenUnlike (snd (dedupStep (d, seen) p))"
proof (cases "\<exists>ea \<in> set seen. compareTwoStrings (normalizeText (endereco p)) ea \<ge> ADDRESS_SIMILARITY_THRESHOLD")
  case True
  then obtain ea where "ea \<in> set seen" "compareTwoStrings (normalizeText (endereco p)) ea \<ge> ADDRESS_SIMILARITY_THRESHOLD"
    by blast
  from dedupStep_dup [OF this, of d] assms show ?thesis by simp
next
  case False
  then have all: "\<forall>ea \<in> set seen. compareTwoStrings (normalizeText (endereco p)) ea < ADDRESS_SIMILARITY_THRESHOLD"
    by (auto simp: not_le)
  have notin: "normalizeText (endereco p) \<notin> set seen"
  proof
    assume "normalizeText (endereco p) \<in> set seen"
    with all have "compareTwoStrings (normalizeText (endereco p)) (normalizeText (endereco p)) < ADDRESS_SIMILARITY_THRESHOLD" by blast
    then show False using threshold_le_1 by (simp add: compareTwoStrings_refl)
  qed
  show ?thesis
    using dedupStep_new [OF all, of d] assms all notin
    by (simp add: seenUnlike_def sorted_wrt_append)
qed

lemma foldl_dedupStep_inv:
  "length (fst st) = length (snd st) \<Longrightarrow> distinct (snd st) \<Longrightarrow> seenUnlike (snd st) \<Longrightarrow>
     length (fst (foldl dedupStep st ps)) = length (snd (foldl dedupStep st ps))
     \<and> distinct (snd (foldl dedupStep st ps)) \<and> seenUnlike (snd (foldl dedupStep st ps))"
proof (induction ps arbitrary: st)
  case Nil
  then show ?case by simp
next
  case (Cons p ps)
  obtain d seen where st: "st = (d, seen)" by (cases st)
  have "length (fst (dedupStep st p)) = length (snd (dedupStep st p))
     \<and> distinct (snd (dedupStep st p)) \<and> seenUnlike (snd (dedupStep st p))"
    using dedupStep_inv [of d seen p] Cons.prems by (simp add: st)
  then show ?case using Cons.IH [of "dedupStep st p"] by simp
qed

lemma dedupLoop_inv:
  "length (fst (dedupLoop ps)) = length (snd (dedupLoop ps))
     \<and> distinct (snd (dedupLoop ps)) \<and> seenUnlike (snd (dedupLoop ps))"
  unfolding dedupLoop_def by (rule foldl_dedupStep_inv) (simp_all add: seenUnlike_def)

lemma seenUnlike_nth:
  assumes "seenUnlike seen" "i < length seen" "j < length seen" "i \<noteq> j"
  shows "compareTwoStrings (seen ! i) (seen ! j) < ADDRESS_SIMILARITY_THRESHOLD"
proof (cases "i < j")
  case True
  then have "compareTwoStrings (seen ! j) (seen ! i) < ADDRESS_SIMILARITY_THRESHOLD"
    using assms by (simp add: seenUnlike_def sorted_wrt_iff_nth_less)
  then show ?thesis by (simp add: compareTwoStrings_sym)
next
  case False
  then have "j < i" using assms by simp
  then show ?thesis using assms by (simp add: seenUnlike_def sorted_wrt_iff_nth_less)
qed

lemma keepsEarlier_nth:
  "keepsEarlier ps \<longleftrightarrow>
     (\<forall>j < length ps. \<forall>i < j.
        compareTwoStrings (addressKey (ps ! j)) (addressKey (ps ! i)) \<ge> ADDRESS_SIMILARITY_THRESHOLD
          \<longrightarrow> \<not> shouldReplace (ps ! i) (ps ! j))"
  by (auto simp: keepsEarlier_def sorted_wrt_iff_nth_less)

lemma dedupStep_keep_similar:
  assumes m: "map addressKey d = seen" and u: "seenUnlike seen"
    and k: "\<forall>a \<in> set d. compareTwoStrings (addressKey p) (addressKey a)
                \<ge> ADDRESS_SIMILARITY_THRESHOLD \<longrightarrow> \<not> shouldReplace a p"
    and dup: "\<exists>ea \<in> set seen. compareTwoStrings (normalizeText (endereco p)) ea
                \<ge> ADDRESS_SIMILARITY_THRESHOLD"
  shows "dedupStep (d, seen) p = (d, seen)"
proof -
  let ?P = "\<lambda>ea. compareTwoStrings (normalizeText (endereco p)) ea \<ge> ADDRESS_SIMILARITY_THRESHOLD"
  from dup have "find ?P seen \<noteq> None" by (auto simp: find_None_iff)
  then obtain ea where f: "find ?P seen = Some ea" by blast
  then have ea: "ea \<in> set seen" "?P ea" by (auto simp: find_Some_iff)
  then obtain j where j: "j < length seen" "seen ! j = ea" by (auto simp: in_set_conv_nth)
  let ?Q = "\<lambda>q. compareTwoStrings (normalizeText (endereco q)) ea \<ge> ADDRESS_SIMILARITY_THRESHOLD"
  show ?thesis
  proof (cases "findIndex ?Q d")
    case None
    then show ?thesis using f by (simp add: dedupStep_def)
  next
    case (Some i)
    then have i: "i < length d" "?Q (d ! i)" using findIndex_Some by blast+
    have si: "seen ! i = addressKey (d ! i)" using m i(1) by (metis nth_map)
    have il: "i < length seen" using m i(1) by (metis length_map)
    have "i = j"
    proof (rule ccontr)
      assume "i \<noteq> j"
      then have "compareTwoStrings (seen ! i) (seen ! j) < ADDRESS_SIMILARITY_THRESHOLD"
        using seenUnlike_nth [OF u il j(1)] by simp
      then show False using i(2) si j(2) by (simp add: addressKey_def)
    qed
    then have "addressKey (d ! i) = ea" using si j(2) by simp
    then have "compareTwoStrings (addressKey p) (addressKey (d ! i)) \<ge> ADDRESS_SIMILARITY_THRESHOLD"
      using ea(2) by (simp add: addressKey_def)
    then have "\<not> shouldReplace (d ! i) p" using k i(1) nth_mem by blast
    then show ?thesis using f Some by (simp add: dedupStep_def)
  qed
qed

lemma dedupLoop_keepsEarlier:
  "keepsEarlier ps \<Longrightarrow>
     map addressKey (fst (dedupLoop ps)) = snd (dedupLoop ps) \<and> set (fst (dedupLoop ps)) \<subseteq> set ps"
proof (induction ps rule: rev_induct)
  case Nil
  show ?case by (simp add: dedupLoop_def)
next
  case (snoc p ps)
  from snoc.prems have kp: "keepsEarlier ps"
    and kn: "\<forall>a \<in> set ps. compareTwoStrings (addressKey p) (addressKey a)
                \<ge> ADDRESS_SIMILARITY_THRESHOLD \<longrightarrow> \<not> shouldReplace a p"
    by (simp_all add: keepsEarlier_def sorted_wrt_append)
  obtain d seen where l: "dedupLoop ps = (d, seen)" by (cases "dedupLoop ps")
  have ih: "map addressKey d = seen" "set d \<subseteq> set ps"
    using snoc.IH [OF kp] l by simp_all
  have u: "seenUnlike seen" using dedupLoop_inv [of ps] l by simp
  have step: "dedupLoop (ps @ [p]) = dedupStep (d, seen) p"
    using l by (simp add: dedupLoop_def)
  show ?case
  proof (cases "\<exists>ea \<in> set seen. compareTwoStrings (normalizeText (endereco p)) ea \<ge> ADDRESS_SIMILARITY_THRESHOLD")
    case True
    have "\<forall>a \<in> set d. compareTwoStrings (addressKey p) (addressKey a)
                \<ge> ADDRESS_SIMILARITY_THRESHOLD \<longrightarrow> \<not> shouldReplace a p"
      using kn ih(2) by blast
    then have "dedupStep (d, seen) p = (d, seen)"
      using True by (intro dedupStep_keep_similar [OF ih(1) u])
    then show ?thesis using step ih by auto
  next
    case False
    then have "\<forall>ea \<in> set seen. compareTwoStrings (normalizeText (endereco p)) ea < ADDRESS_SIMILARITY_THRESHOLD"
      by (auto simp: not_le)
    then have "dedupStep (d, seen) p = (d @ [p], seen @ [normalizeText (endereco p)])"
      by (rule dedupStep_new)
    then show ?thesis using step ih by (auto simp: addressKey_def)
  qed
qed

subsection \<open>The score as a weighted sum\<close>

lemma weight_le: "(b \<longrightarrow> c) \<Longrightarrow> 0 \<le> w \<Longrightarrow> (if b then w else 0) \<le> (if c then w else (0::int))"
  by simp

lemma weighted_sum_mono:
  fixes w1 w2 w3 w4 w5 w6 w7 :: int
  assumes w: "0 < w1" "0 < w2" "0 < w3" "0 < w4" "0 < w5" "0 < w6" "0 < w7"
    and i: "b1 \<longrightarrow> c1" "b2 \<longrightarrow> c2" "b3 \<longrightarrow> c3" "b4 \<longrightarrow> c4" "b5 \<longrightarrow> c5" "b6 \<longrightarrow> c6" "b7 \<longrightarrow> c7"
  shows "(if b1 then w1 else 0) + (if b2 then w2 else 0) + (if b3 then w3 else 0)
         + (if b4 then w4 else 0) + (if b5 then w5 else 0) + (if b6 then w6 else 0)
         + (if b7 then w7 else 0)
       \<le> (if c1 then w1 else 0) + (if c2 then w2 else 0) + (if c3 then w3 else 0)
         + (if c4 then w4 else 0) + (if c5 then w5 else 0) + (if c6 then w6 else 0)
         + (if c7 then w7 else 0)"
    and "[b1, b2, b3, b4, b5, b6, b7] \<noteq> [c1, c2, c3, c4, c5, c6, c7] \<Longrightarrow>
         (if b1 then w1 else 0) + (if b2 then w2 else 0) + (if b3 then w3 else 0)
         + (if b4 then w4 else 0) + (if b5 then w5 else 0) + (if b6 then w6 else 0)
         + (if b7 then w7 else 0)
       < (if c1 then w1 else 0) + (if c2 then w2 else 0) + (if c3 then w3 else 0)
         + (if c4 then w4 else 0) + (if c5 then w5 else 0) + (if c6 then w6 else 0)
         + (if c7 then w7 else 0)"
proof -
  define s1 t1 where "s1 = (if b1 then w1 else 0)" and "t1 = (if c1 then w1 else 0)"
  define s2 t2 where "s2 = (if b2 then w2 else 0)" and "t2 = (if c2 then w2 else 0)"
  define s3 t3 where "s3 = (if b3 then w3 else 0)" and "t3 = (if c3 then w3 else 0)"
  define s4 t4 where "s4 = (if b4 then w4 else 0)" and "t4 = (if c4 then w4 else 0)"
  define s5 t5 where "s5 = (if b5 then w5 else 0)" and "t5 = (if c5 then w5 else 0)"
  define s6 t6 where "s6 = (if b6 then w6 else 0)" and "t6 = (if c6 then w6 else 0)"
  define s7 t7 where "s7 = (if b7 then w7 else 0)" and "t7 = (if c7 then w7 else 0)"
  note defs = s1_def t1_def s2_def t2_def s3_def t3_def s4_def t4_def s5_def t5_def
    s6_def t6_def s7_def t7_def
  have le: "s1 \<le> t1" "s2 \<le> t2" "s3 \<le> t3" "s4 \<le> t4" "s5 \<le> t5" "s6 \<le> t6" "s7 \<le> t7"
    unfolding defs
    using w i by (simp_all only: weight_le [OF _ less_imp_le])
  then have "s1 + s2 + s3 + s4 + s5 + s6 + s7 \<le> t1 + t2 + t3 + t4 + t5 + t6 + t7"
    by linarith
  then show "(if b1 then w1 else 0) + (if b2 then w2 else 0) + (if b3 then w3 else 0)
         + (if b4 then w4 else 0) + (if b5 then w5 else 0) + (if b6 then w6 else 0)
         + (if b7 then w7 else 0)
       \<le> (if c1 then w1 else 0) + (if c2 then w2 else 0) + (if c3 then w3 else 0)
         + (if c4 then w4 else 0) + (if c5 then w5 else 0) + (if c6 then w6 else 0)
         + (if c7 then w7 else 0)"
    unfolding defs .
  assume ne: "[b1, b2, b3, b4, b5, b6, b7] \<noteq> [c1, c2, c3, c4, c5, c6, c7]"
  have "s1 + s2 + s3 + s4 + s5 + s6 + s7 < t1 + t2 + t3 + t4 + t5 + t6 + t7"
  proof (rule ccontr)
    assume "\<not> s1 + s2 + s3 + s4 + s5 + s6 + s7 < t1 + t2 + t3 + t4 + t5 + t6 + t7"
    then have ge: "t1 + t2 + t3 + t4 + t5 + t6 + t7 \<le> s1 + s2 + s3 + s4 + s5 + s6 + s7"
      by simp
    have e1: "s1 = t1" using le ge by linarith
    have e2: "s2 = t2" using le ge by linarith
    have e3: "s3 = t3" using le ge by linarith
    have e4: "s4 = t4" using le ge by linarith
    have e5: "s5 = t5" using le ge by linarith
    have e6: "s6 = t6" using le ge by linarith
    have e7: "s7 = t7" using le ge by linarith
    have "b1 = c1" using e1 w(1) unfolding s1_def t1_def by (simp split: if_splits)
    moreover have "b2 = c2" using e2 w(2) unfolding s2_def t2_def by (simp split: if_splits)
    moreover have "b3 = c3" using e3 w(3) unfolding s3_def t3_def by (simp split: if_splits)
    moreover have "b4 = c4" using e4 w(4) unfolding s4_def t4_def by (simp split: if_splits)
    moreover have "b5 = c5" using e5 w(5) unfolding s5_def t5_def by (simp split: if_splits)
    moreover have "b6 = c6" using e6 w(6) unfolding s6_def t6_def by (simp split: if_splits)
    moreover have "b7 = c7" using e7 w(7) unfolding s7_def t7_def by (simp split: if_splits)
    ultimately show False using ne by simp
  qed
  then show "(if b1 then w1 else 0) + (if b2 then w2 else 0) + (if b3 then w3 else 0)
         + (if b4 then w4 else 0) + (if b5 then w5 else 0) + (if b6 then w6 else 0)
         + (if b7 then w7 else 0)
       < (if c1 then w1 else 0) + (if c2 then w2 else 0) + (if c3 then w3 else 0)
         + (if c4 then w4 else 0) + (if c5 then w5 else 0) + (if c6 then w6 else 0)
         + (if c7 then w7 else 0)"
    unfolding defs .
qed

lemma scoreProperty_sum:
  "scoreProperty p =
       (if truthyNum (avaliacao p) then 3 else 0)
     + (if truthyNum (desconto p) then 3 else 0)
     + (if truthyStr (area p) then 2 else 0)
     + (if ocupacao p \<noteq> ''desconhecido'' then 2 else 0)
     + (if truthyStr (encerramento p) then 1 else 0)
     + (if length (endereco p) > 20 then 1 else 0)
     + (if modalidade p \<noteq> [] \<and> modalidade p \<noteq> Leilao then 1 else 0)"
  by (simp add: scoreProperty_def Let_def)

subsection \<open>The ranking of the output\<close>

lemma set_dedupLoop: "set (fst (dedupLoop ps)) \<subseteq> set ps"
  using set_mset_mono [OF foldl_dedupStep_mset [of "([], [])" ps]]
  by (simp add: dedupLoop_def)

lemma prioridadeConsistent_subset:
  "prioridadeConsistent ys \<Longrightarrow> set xs \<subseteq> set ys \<Longrightarrow> prioridadeConsistent xs"
  unfolding prioridadeConsistent_def by blast

lemma prioridade_set_consistent:
  "\<forall>p \<in> set xs. prioridade p \<noteq> None \<Longrightarrow> prioridadeConsistent xs"
  unfolding prioridadeConsistent_def truthyBool_def by (auto split: option.splits)

lemma ranked_when_consistent:
  assumes "prioridadeConsistent (concat sources)"
  shows "sorted_wrt rankedBefore (deduplicateProperties sources)"
proof -
  have "prioridadeConsistent (fst (dedupLoop (concat sources)))"
    using assms set_dedupLoop by (rule prioridadeConsistent_subset)
  then show ?thesis
    by (simp add: deduplicateProperties_def Let_def sorted_arraySort)
qed

lemma equal_keys_keep_order:
  assumes "prioridadeConsistent (concat sources)"
  shows "filter (\<lambda>p. sortKey p = k) (deduplicateProperties sources)
           = filter (\<lambda>p. sortKey p = k) (fst (dedupLoop (concat sources)))"
  by (simp add: deduplicateProperties_def Let_def filter_arraySort)

subsection \<open>The store\<close>

lemma getObj_append: "getObj h r = Some p \<Longrightarrow> getObj (h @ ext) r = Some p"
  by (auto simp: getObj_def nth_append split: if_splits)

lemma getArr_append: "getArr h r = Some rs \<Longrightarrow> getArr (h @ ext) r = Some rs"
  by (auto simp: getArr_def nth_append split: if_splits)

lemma readAll_append: "readAll h rs = Some ps \<Longrightarrow> readAll (h @ ext) rs = Some ps"
  by (induction rs arbitrary: ps) (auto simp: getObj_append split: option.splits)

lemma readArray_append: "readArray h a = Some ps \<Longrightarrow> readArray (h @ ext) a = Some ps"
  by (auto simp: readArray_def getArr_append readAll_append split: option.splits)

lemma readAll_length: "readAll h rs = Some ps \<Longrightarrow> length ps = length rs"
  by (induction rs arbitrary: ps) (auto split: option.splits)

lemma upt_shift: "[n ..< Suc (n + k)] = n # [Suc n ..< Suc (n + k)]"
  by (simp add: upt_conv_Cons del: upt_Suc)

lemma mapSpread_result:
  "readAll h rs = Some ps \<Longrightarrow>
     mapSpread ids h rs out
       = Some (h @ map (\<lambda>p. Obj (p\<lparr>novo := Some (id' p \<notin> ids)\<rparr>)) ps,
               out @ [length h ..< length h + length ps])"
proof (induction rs arbitrary: h ps out)
  case Nil
  then show ?case by simp
next
  case (Cons r rs)
  from Cons.prems obtain p qs where p: "getObj h r = Some p" and qs: "readAll h rs = Some qs"
    and ps: "ps = p # qs"
    by (auto split: option.splits)
  let ?c = "Obj (p\<lparr>novo := Some (id' p \<notin> ids)\<rparr>)"
  have "readAll (h @ [?c]) rs = Some qs" using qs by (rule readAll_append)
  from Cons.IH [OF this, of "out @ [length h]"]
  show ?case using p ps by (simp add: alloc_def upt_shift del: upt_Suc)
qed

lemma readAll_fresh:
  "readAll (h @ map Obj qs @ t) [length h ..< length h + length qs] = Some qs"
proof (induction qs arbitrary: h)
  case Nil
  show ?case by simp
next
  case (Cons q qs)
  have "readAll ((h @ [Obj q]) @ map Obj qs @ t) [length (h @ [Obj q]) ..< length (h @ [Obj q]) + length qs] = Some qs"
    by (rule Cons.IH)
  moreover have "getObj (h @ Obj q # map Obj qs @ t) (length h) = Some q"
    by (simp add: getObj_def)
  ultimately show ?case by (simp add: upt_shift del: upt_Suc)
qed

lemma markNewProperties_store_result:
  assumes c: "readArray h cur = Some current" and p: "readArray h prev = Some previous"
  shows "markNewProperties_store h cur prev
           = Some (h @ map Obj (markNewProperties current previous)
                     @ [Arr [length h ..< length h + length current]],
                   length h + length current)"
proof -
  from c obtain refs where refs: "getArr h cur = Some refs" "readAll h refs = Some current"
    by (auto simp: readArray_def split: option.splits)
  have m: "map (\<lambda>p. Obj (p\<lparr>novo := Some (id' p \<notin> set (map id' previous))\<rparr>)) current
         = map Obj (markNewProperties current previous)"
    by (simp add: markNewProperties_def)
  show ?thesis
    using p refs mapSpread_result [OF refs(2), of "set (map id' previous)" "[]"]
    by (simp add: markNewProperties_store_def alloc_def m [symmetric] del: set_map)
qed

section \<open>The claims\<close>

text \<open>
  C1, as stated: the output of \<open>deduplicateProperties\<close> never contains two distinct
  records whose normalized addresses have similarity 0.85 or more. This fails. After
  \<open>chain1\<close> is emitted, \<open>chain2\<close> is its duplicate and replaces it, having the
  higher score, while the seen set keeps the address of \<open>chain1\<close>; \<open>chain3\<close> is
  then compared with that address only, is below the threshold, and is emitted, although
  its similarity to \<open>chain2\<close> is \<open>9/10\<close>.
\<close>

theorem pairwise_unlike_counterexample:
  "deduplicateProperties [[chain1], [chain2], [chain3]] = [chain2, chain3]
   \<and> chain2 \<noteq> chain3
   \<and> compareTwoStrings (normalizeText (endereco chain2)) (normalizeText (endereco chain3)) = 9 / 10
   \<and> ADDRESS_SIMILARITY_THRESHOLD \<le> 9 / 10"
proof -
  have a: "deduplicateProperties [[chain1], [chain2], [chain3]] = [chain2, chain3]"
    by code_simp
  have b: "chain2 \<noteq> chain3"
    by (simp add: chain2_def chain3_def scenarioA_def)
  have c: "compareTwoStrings (normalizeText (endereco chain2)) (normalizeText (endereco chain3)) = 9 / 10"
    by code_simp
  have d: "ADDRESS_SIMILARITY_THRESHOLD \<le> 9 / 10"
    by (simp add: ADDRESS_SIMILARITY_THRESHOLD_def)
  from a b c d show ?thesis by blast
qed

text \<open>
  C1, amended. What the loop maintains is the invariant of the seen set: the output has
  one record for each seen address, and any two different entries of the seen set, the
  first-seen normalized addresses, have similarity below 0.85. When no record of the
  input would replace an earlier record whose normalized address has similarity 0.85 or
  more to its own (\<open>shouldReplace\<close> is false on every such pair; pairs of unlike
  addresses are free), the normalized addresses of the output are the seen addresses, and
  then no two records at different positions of the output have similarity 0.85 or more.
\<close>

theorem seen_addresses_unlike:
  "(let seen = snd (dedupLoop (concat sources)); out = deduplicateProperties sources in
      length out = length seen
      \<and> (\<forall>i < length seen. \<forall>j < length seen. i \<noteq> j \<longrightarrow>
            compareTwoStrings (seen ! i) (seen ! j) < ADDRESS_SIMILARITY_THRESHOLD)
      \<and> ((\<forall>j < length (concat sources). \<forall>i < j.
             compareTwoStrings (addressKey (concat sources ! j)) (addressKey (concat sources ! i))
               \<ge> ADDRESS_SIMILARITY_THRESHOLD
             \<longrightarrow> \<not> shouldReplace (concat sources ! i) (concat sources ! j)) \<longrightarrow>
            (\<forall>i < length out. \<forall>j < length out. i \<noteq> j \<longrightarrow>
               compareTwoStrings (addressKey (out ! i)) (addressKey (out ! j))
                 < ADDRESS_SIMILARITY_THRESHOLD)))"
proof -
  let ?ps = "concat sources"
  let ?d = "fst (dedupLoop ?ps)" and ?seen = "snd (dedupLoop ?ps)"
  let ?out = "deduplicateProperties sources"
  have out: "?out = arraySort compareFn ?d"
    by (simp add: deduplicateProperties_def Let_def)
  have inv: "length ?d = length ?seen" "distinct ?seen" "seenUnlike ?seen"
    using dedupLoop_inv [of ?ps] by simp_all
  have len: "length ?out = length ?seen"
    using inv(1) mset_arraySort [of compareFn ?d] out by (metis size_mset)
  have seen: "\<forall>i < length ?seen. \<forall>j < length ?seen. i \<noteq> j \<longrightarrow>
            compareTwoStrings (?seen ! i) (?seen ! j) < ADDRESS_SIMILARITY_THRESHOLD"
    using seenUnlike_nth [OF inv(3)] by blast
  have norep: "\<forall>i < length ?out. \<forall>j < length ?out. i \<noteq> j \<longrightarrow>
               compareTwoStrings (addressKey (?out ! i)) (addressKey (?out ! j))
                 < ADDRESS_SIMILARITY_THRESHOLD"
    if h: "\<forall>j < length ?ps. \<forall>i < j.
             compareTwoStrings (addressKey (?ps ! j)) (addressKey (?ps ! i))
               \<ge> ADDRESS_SIMILARITY_THRESHOLD
             \<longrightarrow> \<not> shouldReplace (?ps ! i) (?ps ! j)"
  proof (intro allI impI)
    fix i j assume i: "i < length ?out" and j: "j < length ?out" and ij: "i \<noteq> j"
    have k: "keepsEarlier ?ps" using h by (simp only: keepsEarlier_nth)
    have m: "map addressKey ?d = ?seen"
      using dedupLoop_keepsEarlier [OF k] by simp
    then have dm: "distinct (map addressKey ?d)" using inv(2) by simp
    then have dd: "distinct ?d" by (simp add: distinct_map)
    have "mset ?out = mset ?d" by (simp add: out mset_arraySort)
    then have dout: "distinct ?out" and sout: "set ?out = set ?d"
      using dd by (metis mset_eq_imp_distinct_iff, metis set_mset_mset)
    have ne: "?out ! i \<noteq> ?out ! j"
      using dout i j ij by (simp add: nth_eq_iff_index_eq)
    have "?out ! i \<in> set ?d" "?out ! j \<in> set ?d"
      using i j sout nth_mem by blast+
    then obtain i' j' where i': "i' < length ?d" "?d ! i' = ?out ! i"
      and j': "j' < length ?d" "?d ! j' = ?out ! j"
      by (auto simp: in_set_conv_nth)
    have "i' \<noteq> j'" using ne i' j' by auto
    moreover have "?seen ! i' = addressKey (?out ! i)" "?seen ! j' = addressKey (?out ! j)"
      using m i' j' by (metis nth_map)+
    ultimately show "compareTwoStrings (addressKey (?out ! i)) (addressKey (?out ! j))
                 < ADDRESS_SIMILARITY_THRESHOLD"
      using seenUnlike_nth [OF inv(3), of i' j'] i' j' inv(1) by simp
  qed
  from len seen norep show ?thesis by (simp add: Let_def)
qed

theorem seen_addresses_unlike_witness:
  "snd (dedupLoop (concat [[chain1], [chain2], [chain3]]))
     = [''abcdefghijklmnopqrstu'', ''abcdexghijklmnoyqrstu'']
   \<and> compareTwoStrings ''abcdefghijklmnopqrstu'' ''abcdexghijklmnoyqrstu''
       < ADDRESS_SIMILARITY_THRESHOLD
   \<and> keepsEarlier (concat [[chain1], [onThreshold], [otherStreet]])
   \<and> shouldReplace chain1 otherStreet
   \<and> deduplicateProperties [[chain1], [onThreshold], [otherStreet]] = [chain1, otherStreet]
   \<and> compareTwoStrings (addressKey chain1) (addressKey otherStreet)
       < ADDRESS_SIMILARITY_THRESHOLD"
proof -
  have s: "snd (dedupLoop (concat [[chain1], [chain2], [chain3]]))
     = [''abcdefghijklmnopqrstu'', ''abcdexghijklmnoyqrstu'']"
    by code_simp
  have k: "keepsEarlier (concat [[chain1], [onThreshold], [otherStreet]])"
    by code_simp
  have r: "shouldReplace chain1 otherStreet"
    by code_simp
  have o: "deduplicateProperties [[chain1], [onThreshold], [otherStreet]] = [chain1, otherStreet]"
    by code_simp
  have h: "\<forall>j < length (concat [[chain1], [onThreshold], [otherStreet]]). \<forall>i < j.
             compareTwoStrings (addressKey (concat [[chain1], [onThreshold], [otherStreet]] ! j))
                 (addressKey (concat [[chain1], [onThreshold], [otherStreet]] ! i))
               \<ge> ADDRESS_SIMILARITY_THRESHOLD
             \<longrightarrow> \<not> shouldReplace (concat [[chain1], [onThreshold], [otherStreet]] ! i)
                   (concat [[chain1], [onThreshold], [otherStreet]] ! j)"
    using k by (simp only: keepsEarlier_nth)
  have c1: "compareTwoStrings ''abcdefghijklmnopqrstu'' ''abcdexghijklmnoyqrstu''
       < ADDRESS_SIMILARITY_THRESHOLD"
  proof -
    have "\<forall>i < length [''abcdefghijklmnopqrstu'', ''abcdexghijklmnoyqrstu''].
          \<forall>j < length [''abcdefghijklmnopqrstu'', ''abcdexghijklmnoyqrstu'']. i \<noteq> j \<longrightarrow>
            compareTwoStrings ([''abcdefghijklmnopqrstu'', ''abcdexghijklmnoyqrstu''] ! i)
              ([''abcdefghijklmnopqrstu'', ''abcdexghijklmnoyqrstu''] ! j)
              < ADDRESS_SIMILARITY_THRESHOLD"
      using seen_addresses_unlike [of "[[chain1], [chain2], [chain3]]"]
      unfolding Let_def s by blast
    from this [rule_format, of 0 1] show ?thesis by simp
  qed
  have c2: "compareTwoStrings (addressKey chain1) (addressKey otherStreet)
       < ADDRESS_SIMILARITY_THRESHOLD"
  proof -
    have "\<forall>i < length [chain1, otherStreet]. \<forall>j < length [chain1, otherStreet]. i \<noteq> j \<longrightarrow>
            compareTwoStrings (addressKey ([chain1, otherStreet] ! i))
              (addressKey ([chain1, otherStreet] ! j)) < ADDRESS_SIMILARITY_THRESHOLD"
      using seen_addresses_unlike [of "[[chain1], [onThreshold], [otherStreet]]"] h
      unfolding Let_def o by blast
    from this [rule_format, of 0 1] show ?thesis by simp
  qed
  from s k r o c1 c2 show ?thesis by blast
qed




text \<open>
  C3, as stated, ends with: of two records with identical score where exactly one has
  \<open>desconto\<close> set, the one with it set survives. This fails when the record with the
  discount is the existing one and the new record supplies an appraised value that the
  existing one lacks: the scores are equal, and the second test of \<open>shouldReplace\<close>
  replaces the existing record.
\<close>

theorem tie_break_counterexample:
  "scoreProperty onlyDiscount = scoreProperty onlyAppraisal
   \<and> desconto onlyDiscount = Some 50 \<and> desconto onlyAppraisal = None
   \<and> shouldReplace onlyDiscount onlyAppraisal
   \<and> deduplicateProperties [[onlyDiscount], [onlyAppraisal]] = [onlyAppraisal]"
proof -
  have a: "scoreProperty onlyDiscount = scoreProperty onlyAppraisal" by code_simp
  have b: "desconto onlyDiscount = Some 50" "desconto onlyAppraisal = None"
    by (simp_all add: onlyDiscount_def onlyAppraisal_def)
  have c: "shouldReplace onlyDiscount onlyAppraisal" by code_simp
  have d: "deduplicateProperties [[onlyDiscount], [onlyAppraisal]] = [onlyAppraisal]" by code_simp
  from a b c d show ?thesis by blast
qed

text \<open>
  C3, amended. \<open>shouldReplace\<close> holds exactly when the new score is higher, or the
  scores are equal and the new record has a truthy \<open>desconto\<close> (neither \<open>null\<close>
  nor 0) where the existing one has none, or a truthy \<open>avaliacao\<close> where the existing
  one has none. In a round of the loop that finds the seen address \<open>ea\<close> and, for it,
  the emitted record at index \<open>i\<close>, the new record is written at index \<open>i\<close> when
  \<open>shouldReplace\<close> holds, and dropped otherwise; the seen set is unchanged. With equal
  scores, a new record that alone has the discount replaces the existing one; an existing
  record that alone has the discount is replaced exactly when the new record supplies an
  appraised value that the existing one lacks.
\<close>

theorem replace_rule:
  "(shouldReplace existing newProp \<longleftrightarrow>
      (scoreProperty newProp > scoreProperty existing
       \<or> (scoreProperty newProp = scoreProperty existing
           \<and> ((truthyNum (desconto newProp) \<and> \<not> truthyNum (desconto existing))
               \<or> (truthyNum (avaliacao newProp) \<and> \<not> truthyNum (avaliacao existing))))))
   \<and> (find (\<lambda>a. compareTwoStrings (normalizeText (endereco newProp)) a
                    \<ge> ADDRESS_SIMILARITY_THRESHOLD) seen = Some ea
       \<and> findIndex (\<lambda>p. compareTwoStrings (normalizeText (endereco p)) ea
                           \<ge> ADDRESS_SIMILARITY_THRESHOLD) d = Some i
       \<and> d ! i = existing \<longrightarrow>
         dedupStep (d, seen) newProp
           = (if shouldReplace existing newProp then d[i := newProp] else d, seen))
   \<and> (scoreProperty newProp = scoreProperty existing
       \<and> truthyNum (desconto newProp) \<and> \<not> truthyNum (desconto existing) \<longrightarrow>
         shouldReplace existing newProp)
   \<and> (scoreProperty newProp = scoreProperty existing
       \<and> truthyNum (desconto existing) \<and> \<not> truthyNum (desconto newProp) \<longrightarrow>
         (shouldReplace existing newProp \<longleftrightarrow>
            truthyNum (avaliacao newProp) \<and> \<not> truthyNum (avaliacao existing)))"
proof -
  have r: "shouldReplace existing newProp \<longleftrightarrow>
      (scoreProperty newProp > scoreProperty existing
       \<or> (scoreProperty newProp = scoreProperty existing
           \<and> ((truthyNum (desconto newProp) \<and> \<not> truthyNum (desconto existing))
               \<or> (truthyNum (avaliacao newProp) \<and> \<not> truthyNum (avaliacao existing)))))"
    by (auto simp: shouldReplace_def Let_def)
  have s: "find (\<lambda>a. compareTwoStrings (normalizeText (endereco newProp)) a
                    \<ge> ADDRESS_SIMILARITY_THRESHOLD) seen = Some ea
       \<and> findIndex (\<lambda>p. compareTwoStrings (normalizeText (endereco p)) ea
                           \<ge> ADDRESS_SIMILARITY_THRESHOLD) d = Some i
       \<and> d ! i = existing \<longrightarrow>
         dedupStep (d, seen) newProp
           = (if shouldReplace existing newProp then d[i := newProp] else d, seen)"
    by (simp add: dedupStep_def Let_def)
  from r s show ?thesis by auto
qed

theorem replace_rule_witness:
  "find (\<lambda>a. compareTwoStrings (normalizeText (endereco onlyAppraisal)) a
                \<ge> ADDRESS_SIMILARITY_THRESHOLD) [''rua das flores, 123 - batel'']
     = Some ''rua das flores, 123 - batel''
   \<and> findIndex (\<lambda>p. compareTwoStrings (normalizeText (endereco p)) ''rua das flores, 123 - batel''
                       \<ge> ADDRESS_SIMILARITY_THRESHOLD) [onlyDiscount] = Some 0
   \<and> scoreProperty onlyAppraisal = scoreProperty onlyDiscount
   \<and> truthyNum (desconto onlyDiscount) \<and> \<not> truthyNum (desconto onlyAppraisal)
   \<and> truthyNum (avaliacao onlyAppraisal) \<and> \<not> truthyNum (avaliacao onlyDiscount)
   \<and> shouldReplace onlyDiscount onlyAppraisal
   \<and> shouldReplace onlyAppraisal onlyDiscount
   \<and> dedupStep ([onlyDiscount], [''rua das flores, 123 - batel'']) onlyAppraisal
       = ([onlyAppraisal], [''rua das flores, 123 - batel''])"
proof -
  have f: "find (\<lambda>a. compareTwoStrings (normalizeText (endereco onlyAppraisal)) a
                \<ge> ADDRESS_SIMILARITY_THRESHOLD) [''rua das flores, 123 - batel'']
     = Some ''rua das flores, 123 - batel''"
    by code_simp
  have g: "findIndex (\<lambda>p. compareTwoStrings (normalizeText (endereco p)) ''rua das flores, 123 - batel''
                       \<ge> ADDRESS_SIMILARITY_THRESHOLD) [onlyDiscount] = Some 0"
    by code_simp
  have sc: "scoreProperty onlyAppraisal = scoreProperty onlyDiscount" by code_simp
  have t: "truthyNum (desconto onlyDiscount)" "\<not> truthyNum (desconto onlyAppraisal)"
    "truthyNum (avaliacao onlyAppraisal)" "\<not> truthyNum (avaliacao onlyDiscount)"
    by code_simp+
  note r1 = replace_rule [of onlyDiscount onlyAppraisal "[''rua das flores, 123 - batel'']"
      "''rua das flores, 123 - batel''" "[onlyDiscount]" 0]
  note r2 = replace_rule [of onlyAppraisal onlyDiscount]
  have a: "shouldReplace onlyDiscount onlyAppraisal" using r1 sc t by simp
  have b: "shouldReplace onlyAppraisal onlyDiscount" using r2 sc t by simp
  have c: "dedupStep ([onlyDiscount], [''rua das flores, 123 - batel'']) onlyAppraisal
       = ([onlyAppraisal], [''rua das flores, 123 - batel''])"
    using r1 f g a by simp
  from f g sc t a b c show ?thesis by blast
qed

text \<open>
  C4, as stated: the score adds 3 when \<open>desconto\<close> is present, and likewise for
  the other fields. With \<open>present\<close> read as \<open>not null\<close> this fails: the source
  tests the truthiness of the field, so a discount of 0, which \<open>calculateDiscount\<close>
  returns when the bid equals the appraised value, adds nothing.
\<close>

theorem score_present_counterexample:
  "desconto zeroDiscount = Some 0 \<and> scoreProperty zeroDiscount = 4 \<and> scoreAsStated zeroDiscount = 7"
proof -
  have a: "desconto zeroDiscount = Some 0" by (simp add: zeroDiscount_def)
  have b: "scoreProperty zeroDiscount = 4" by code_simp
  have c: "scoreAsStated zeroDiscount = 7" by code_simp
  from a b c show ?thesis by blast
qed

text \<open>
  C4, amended. The score is a non-negative integer, the sum of: 3 if \<open>avaliacao\<close>
  is truthy (neither \<open>null\<close> nor 0), 3 if \<open>desconto\<close> is truthy, 2 if \<open>area\<close> is
  present and not empty, 2 if \<open>ocupacao\<close> is not \<open>desconhecido\<close>, 1 if
  \<open>encerramento\<close> is present and not empty, 1 if \<open>endereco\<close> has more than 20 code
  units, 1 if \<open>modalidade\<close> is neither empty nor the default. It is monotonic in these
  seven conditions: if every condition that holds of \<open>p\<close> holds of \<open>q\<close> the score of
  \<open>q\<close> is at least that of \<open>p\<close>, and strictly greater when some condition holds of
  \<open>q\<close> only.
\<close>

theorem score_by_truthiness:
  "scoreProperty p =
       (if truthyNum (avaliacao p) then 3 else 0)
     + (if truthyNum (desconto p) then 3 else 0)
     + (if truthyStr (area p) then 2 else 0)
     + (if ocupacao p \<noteq> ''desconhecido'' then 2 else 0)
     + (if truthyStr (encerramento p) then 1 else 0)
     + (if length (endereco p) > 20 then 1 else 0)
     + (if modalidade p \<noteq> [] \<and> modalidade p \<noteq> Leilao then 1 else 0)
   \<and> 0 \<le> scoreProperty p
   \<and> (list_all2 (\<lambda>a b. a \<longrightarrow> b) (scoredFields p) (scoredFields q) \<longrightarrow>
        scoreProperty p \<le> scoreProperty q)
   \<and> (list_all2 (\<lambda>a b. a \<longrightarrow> b) (scoredFields p) (scoredFields q)
        \<and> scoredFields p \<noteq> scoredFields q \<longrightarrow> scoreProperty p < scoreProperty q)"
proof -
  have n: "0 \<le> scoreProperty p" by (simp add: scoreProperty_sum)
  have m: "scoreProperty p \<le> scoreProperty q"
    if "list_all2 (\<lambda>a b. a \<longrightarrow> b) (scoredFields p) (scoredFields q)"
    unfolding scoreProperty_sum [of p] scoreProperty_sum [of q]
    by (rule weighted_sum_mono(1)) (use that in \<open>simp_all add: scoredFields_def\<close>)
  have s: "scoreProperty p < scoreProperty q"
    if "list_all2 (\<lambda>a b. a \<longrightarrow> b) (scoredFields p) (scoredFields q)"
      and "scoredFields p \<noteq> scoredFields q"
    unfolding scoreProperty_sum [of p] scoreProperty_sum [of q]
    by (rule weighted_sum_mono(2)) (use that in \<open>simp_all add: scoredFields_def\<close>)
  from scoreProperty_sum [of p] n m s show ?thesis by blast
qed

theorem score_by_truthiness_witness:
  "scoredFields scenarioA = [True, True, False, False, False, True, False]
   \<and> scoredFields chain2 = [True, True, True, False, False, True, False]
   \<and> scoreProperty scenarioA = 7 \<and> scoreProperty chain2 = 9
   \<and> scoreProperty scenarioA < scoreProperty chain2"
proof -
  have a: "scoredFields scenarioA = [True, True, False, False, False, True, False]"
    by code_simp
  have b: "scoredFields chain2 = [True, True, True, False, False, True, False]"
    by code_simp
  have c: "scoreProperty scenarioA = 7" "scoreProperty chain2 = 9"
    by code_simp+
  have "scoreProperty scenarioA < scoreProperty chain2"
    using score_by_truthiness [of scenarioA chain2] unfolding a b by simp
  with a b c show ?thesis by blast
qed

text \<open>
  C5. The output is to be ranked by priority, then discount descending, then bid
  ascending. The comparison function tests \<open>a.prioridade !== b.prioridade\<close> on an
  optional field: for a record without the field and a record with \<open>false\<close> it returns
  1 in both directions, so neither record is moved, and the pair stays in input order
  whatever the discounts are. Here the record with discount 50 stays before the record
  with discount 60, although neither is a priority record. (On inputs that carry the
  field consistently the ranking holds, \<open>ranked_when_consistent\<close>, and records with
  equal keys keep their order, \<open>equal_keys_keep_order\<close>.)
\<close>

theorem sort_without_prioridade:
  "prioridade noPriorityField = None \<and> prioridade priorityFalse = Some False
   \<and> compareFn noPriorityField priorityFalse = 1
   \<and> compareFn priorityFalse noPriorityField = 1
   \<and> discountOr0 noPriorityField = 50 \<and> discountOr0 priorityFalse = 60
   \<and> \<not> rankedBefore noPriorityField priorityFalse
   \<and> deduplicateProperties [[noPriorityField, priorityFalse]] = [noPriorityField, priorityFalse]
   \<and> deduplicateProperties [[priorityFalse, noPriorityField]] = [priorityFalse, noPriorityField]"
proof -
  have a: "prioridade noPriorityField = None" "prioridade priorityFalse = Some False"
    by (simp_all add: noPriorityField_def priorityFalse_def scenarioC_def scenarioA_def)
  have b: "compareFn noPriorityField priorityFalse = 1" "compareFn priorityFalse noPriorityField = 1"
    by code_simp+
  have c: "discountOr0 noPriorityField = 50" "discountOr0 priorityFalse = 60"
    by code_simp+
  have d: "\<not> rankedBefore noPriorityField priorityFalse"
    by code_simp
  have e: "deduplicateProperties [[noPriorityField, priorityFalse]] = [noPriorityField, priorityFalse]"
    by code_simp
  have f: "deduplicateProperties [[priorityFalse, noPriorityField]] = [priorityFalse, noPriorityField]"
    by code_simp
  from a b c d e f show ?thesis by blast
qed

text \<open>
  C6. The duplicate decision is inclusive at the threshold. In a round of the loop of
  \<open>deduplicateProperties\<close>, a record whose normalized address has similarity at least
  0.85, so in particular exactly 0.85, to some seen address is a duplicate: nothing is
  appended to the output, which is left as it is or has one slot overwritten by the
  record, and the seen set is unchanged. A record whose similarity to every
  seen address is strictly below 0.85 is appended to the output and its normalized address
  is appended to the seen set.
\<close>

theorem threshold_inclusive:
  "ADDRESS_SIMILARITY_THRESHOLD = 85 / 100
   \<and> ((\<exists>ea \<in> set seen. compareTwoStrings (normalizeText (endereco p)) ea \<ge> 85 / 100) \<longrightarrow>
        snd (dedupStep (d, seen) p) = seen
        \<and> length (fst (dedupStep (d, seen) p)) = length d
        \<and> (fst (dedupStep (d, seen) p) = d
            \<or> (\<exists>i < length d. fst (dedupStep (d, seen) p) = d[i := p])))
   \<and> ((\<forall>ea \<in> set seen. compareTwoStrings (normalizeText (endereco p)) ea < 85 / 100) \<longrightarrow>
        dedupStep (d, seen) p = (d @ [p], seen @ [normalizeText (endereco p)]))"
proof -
  have t: "ADDRESS_SIMILARITY_THRESHOLD = 85 / 100"
    by (simp add: ADDRESS_SIMILARITY_THRESHOLD_def)
  have a: "(\<exists>ea \<in> set seen. compareTwoStrings (normalizeText (endereco p)) ea \<ge> 85 / 100) \<longrightarrow>
        snd (dedupStep (d, seen) p) = seen
        \<and> length (fst (dedupStep (d, seen) p)) = length d
        \<and> (fst (dedupStep (d, seen) p) = d
            \<or> (\<exists>i < length d. fst (dedupStep (d, seen) p) = d[i := p]))"
    using dedupStep_dup [of _ seen p d] dedupStep_dup_shape [of _ seen p d]
    unfolding t by blast
  have b: "(\<forall>ea \<in> set seen. compareTwoStrings (normalizeText (endereco p)) ea < 85 / 100) \<longrightarrow>
        dedupStep (d, seen) p = (d @ [p], seen @ [normalizeText (endereco p)])"
    using dedupStep_new [of seen p d] unfolding t by blast
  from t a b show ?thesis by blast
qed

text \<open>
  Both sides of the constant, on the loop state reached after \<open>chain1\<close>: the address of
  \<open>onThreshold\<close> has similarity exactly \<open>85/100\<close> to the seen address and is not
  emitted; the address of \<open>chain3\<close> has similarity \<open>80/100\<close> and is emitted.
\<close>

theorem threshold_inclusive_witness:
  "dedupLoop [chain1] = ([chain1], [''abcdefghijklmnopqrstu''])
   \<and> compareTwoStrings (normalizeText (endereco onThreshold)) ''abcdefghijklmnopqrstu'' = 85 / 100
   \<and> snd (dedupStep ([chain1], [''abcdefghijklmnopqrstu'']) onThreshold) = [''abcdefghijklmnopqrstu'']
   \<and> length (fst (dedupStep ([chain1], [''abcdefghijklmnopqrstu'']) onThreshold)) = 1
   \<and> fst (dedupStep ([chain1], [''abcdefghijklmnopqrstu'']) onThreshold) = [chain1]
   \<and> compareTwoStrings (normalizeText (endereco chain3)) ''abcdefghijklmnopqrstu'' = 80 / 100
   \<and> dedupStep ([chain1], [''abcdefghijklmnopqrstu'']) chain3
       = ([chain1, chain3], [''abcdefghijklmnopqrstu'', ''abcdexghijklmnoyqrstu''])"
proof -
  have l: "dedupLoop [chain1] = ([chain1], [''abcdefghijklmnopqrstu''])"
    by code_simp
  have s1: "compareTwoStrings (normalizeText (endereco onThreshold)) ''abcdefghijklmnopqrstu'' = 85 / 100"
    by code_simp
  have s3: "compareTwoStrings (normalizeText (endereco chain3)) ''abcdefghijklmnopqrstu'' = 80 / 100"
    by code_simp
  have n3: "normalizeText (endereco chain3) = ''abcdexghijklmnoyqrstu''"
    by code_simp
  note th1 = threshold_inclusive [of "[''abcdefghijklmnopqrstu'']" onThreshold "[chain1]"]
  note th3 = threshold_inclusive [of "[''abcdefghijklmnopqrstu'']" chain3 "[chain1]"]
  have d1: "snd (dedupStep ([chain1], [''abcdefghijklmnopqrstu'']) onThreshold) = [''abcdefghijklmnopqrstu'']
     \<and> length (fst (dedupStep ([chain1], [''abcdefghijklmnopqrstu'']) onThreshold)) = 1"
    using th1 s1 by simp
  have d3: "dedupStep ([chain1], [''abcdefghijklmnopqrstu'']) chain3
       = ([chain1, chain3], [''abcdefghijklmnopqrstu'', ''abcdexghijklmnoyqrstu''])"
    using th3 s3 n3 by simp
  have k: "fst (dedupStep ([chain1], [''abcdefghijklmnopqrstu'']) onThreshold) = [chain1]"
    by code_simp
  from l s1 s3 d1 d3 k show ?thesis by blast
qed

text \<open>
  C7. \<open>markNewProperties\<close> returns, for each record of \<open>current\<close> in order, a record
  with the same \<open>id\<close> whose \<open>novo\<close> flag is true exactly when that \<open>id\<close> is not among the
  ids of \<open>previous\<close>. With an empty \<open>previous\<close> every output record is marked new; with
  \<open>previous\<close> equal to \<open>current\<close> every output record is marked not new. The function
  is pure and mutates neither input: run on a store in which \<open>cur\<close> and \<open>prev\<close> are
  arrays of records, it returns, every cell of the store is as it was, the array it
  returns and the records in it are new cells, that array holds the records above, and
  \<open>cur\<close> and \<open>prev\<close> still hold what they held.
\<close>

theorem markNewProperties_novo:
  "length (markNewProperties current previous) = length current
   \<and> (\<forall>i < length current.
        id' (markNewProperties current previous ! i) = id' (current ! i)
        \<and> novo (markNewProperties current previous ! i)
            = Some (id' (current ! i) \<notin> set (map id' previous)))
   \<and> (\<forall>q \<in> set (markNewProperties current previous).
        novo q = Some (id' q \<notin> set (map id' previous)))
   \<and> (\<forall>q \<in> set (markNewProperties current []). novo q = Some True)
   \<and> (\<forall>q \<in> set (markNewProperties current current). novo q = Some False)
   \<and> (readArray h cur = Some current \<and> readArray h prev = Some previous \<longrightarrow>
        (case markNewProperties_store h cur prev of
           None \<Rightarrow> False
         | Some (h', r) \<Rightarrow>
             take (length h) h' = h
             \<and> length h \<le> r
             \<and> (case getArr h' r of
                   None \<Rightarrow> False
                 | Some refs \<Rightarrow> \<forall>a \<in> set refs. length h \<le> a)
             \<and> readArray h' r = Some (markNewProperties current previous)
             \<and> readArray h' cur = Some current
             \<and> readArray h' prev = Some previous))"
proof -
  have f: "length (markNewProperties current previous) = length current
   \<and> (\<forall>i < length current.
        id' (markNewProperties current previous ! i) = id' (current ! i)
        \<and> novo (markNewProperties current previous ! i)
            = Some (id' (current ! i) \<notin> set (map id' previous)))
   \<and> (\<forall>q \<in> set (markNewProperties current previous).
        novo q = Some (id' q \<notin> set (map id' previous)))
   \<and> (\<forall>q \<in> set (markNewProperties current []). novo q = Some True)
   \<and> (\<forall>q \<in> set (markNewProperties current current). novo q = Some False)"
    by (auto simp: markNewProperties_def)
  have st: "case markNewProperties_store h cur prev of
           None \<Rightarrow> False
         | Some (h', r) \<Rightarrow>
             take (length h) h' = h
             \<and> length h \<le> r
             \<and> (case getArr h' r of
                   None \<Rightarrow> False
                 | Some refs \<Rightarrow> \<forall>a \<in> set refs. length h \<le> a)
             \<and> readArray h' r = Some (markNewProperties current previous)
             \<and> readArray h' cur = Some current
             \<and> readArray h' prev = Some previous"
    if c: "readArray h cur = Some current" and p: "readArray h prev = Some previous"
  proof -
    let ?new = "markNewProperties current previous"
    let ?h' = "h @ map Obj ?new @ [Arr [length h ..< length h + length current]]"
    let ?r = "length h + length current"
    have res: "markNewProperties_store h cur prev = Some (?h', ?r)"
      by (rule markNewProperties_store_result [OF c p])
    have len: "length ?new = length current" by (simp add: markNewProperties_def)
    have g: "getArr ?h' ?r = Some [length h ..< length h + length current]"
      by (simp add: getArr_def nth_append len)
    have "readAll ?h' [length h ..< length h + length ?new] = Some ?new"
      by (rule readAll_fresh)
    then have ra: "readArray ?h' ?r = Some ?new"
      using g by (simp add: readArray_def len)
    have rc: "readArray ?h' cur = Some current" using c by (rule readArray_append)
    have rp: "readArray ?h' prev = Some previous" using p by (rule readArray_append)
    show ?thesis unfolding res using g ra rc rp by simp
  qed
  from f st show ?thesis by blast
qed

theorem markNewProperties_novo_witness:
  "(1::nat) < length [scenarioA, scenarioB]
   \<and> novo (markNewProperties [scenarioA, scenarioB] [scenarioB] ! 0) = Some True
   \<and> novo (markNewProperties [scenarioA, scenarioB] [scenarioB] ! 1) = Some False
   \<and> scenarioA\<lparr>novo := Some True\<rparr> \<in> set (markNewProperties [scenarioA, scenarioB] [])
   \<and> scenarioA\<lparr>novo := Some False\<rparr>
        \<in> set (markNewProperties [scenarioA, scenarioB] [scenarioA, scenarioB])
   \<and> readArray exampleStore 2 = Some [scenarioA, scenarioB]
   \<and> readArray exampleStore 3 = Some [scenarioB]
   \<and> markNewProperties_store exampleStore 2 3
       = Some (exampleStore @ [Obj (scenarioA\<lparr>novo := Some True\<rparr>),
                               Obj (scenarioB\<lparr>novo := Some False\<rparr>), Arr [4, 5]], 6)
   \<and> readArray (exampleStore @ [Obj (scenarioA\<lparr>novo := Some True\<rparr>),
                                 Obj (scenarioB\<lparr>novo := Some False\<rparr>), Arr [4, 5]]) 2
       = Some [scenarioA, scenarioB]
   \<and> readArray (exampleStore @ [Obj (scenarioA\<lparr>novo := Some True\<rparr>),
                                 Obj (scenarioB\<lparr>novo := Some False\<rparr>), Arr [4, 5]]) 6
       = Some (markNewProperties [scenarioA, scenarioB] [scenarioB])"
proof -
  have ids: "id' scenarioA = ''a-1''" "id' scenarioB = ''b-1''"
    by (simp_all add: scenarioA_def scenarioB_def)
  have m1: "scenarioA\<lparr>novo := Some True\<rparr> \<in> set (markNewProperties [scenarioA, scenarioB] [])"
    by (simp add: markNewProperties_def)
  have m2: "scenarioA\<lparr>novo := Some False\<rparr>
        \<in> set (markNewProperties [scenarioA, scenarioB] [scenarioA, scenarioB])"
    by (simp add: markNewProperties_def)
  have c: "readArray exampleStore 2 = Some [scenarioA, scenarioB]"
    by code_simp
  have p: "readArray exampleStore 3 = Some [scenarioB]"
    by code_simp
  have e: "markNewProperties_store exampleStore 2 3
       = Some (exampleStore @ [Obj (scenarioA\<lparr>novo := Some True\<rparr>),
                               Obj (scenarioB\<lparr>novo := Some False\<rparr>), Arr [4, 5]], 6)"
    by code_simp
  note th = markNewProperties_novo [of "[scenarioA, scenarioB]" "[scenarioB]" exampleStore 2 3]
  have n: "novo (markNewProperties [scenarioA, scenarioB] [scenarioB] ! 0) = Some True
     \<and> novo (markNewProperties [scenarioA, scenarioB] [scenarioB] ! 1) = Some False"
    using th ids by (simp add: nth_Cons')
  have s: "readArray (exampleStore @ [Obj (scenarioA\<lparr>novo := Some True\<rparr>),
                                 Obj (scenarioB\<lparr>novo := Some False\<rparr>), Arr [4, 5]]) 2
       = Some [scenarioA, scenarioB]
     \<and> readArray (exampleStore @ [Obj (scenarioA\<lparr>novo := Some True\<rparr>),
                                 Obj (scenarioB\<lparr>novo := Some False\<rparr>), Arr [4, 5]]) 6
       = Some (markNewProperties [scenarioA, scenarioB] [scenarioB])"
    using th c p unfolding e by simp
  from m1 m2 c p e n s show ?thesis by simp
qed


text \<open>
  C8. \<open>meetsFilters\<close> accepts exactly the records whose \<open>desconto\<close> is not \<open>null\<close> and at
  least \<open>MIN_DISCOUNT\<close>, which is 40, and whose \<open>lance\<close> is at most \<open>MAX_PRICE\<close>, which is
  800000. Scenario record A (discount 40, price 300000) passes; scenario record C
  (discount 10, price 900000) is rejected.
\<close>

theorem meetsFilters_exact:
  "MIN_DISCOUNT = 40 \<and> MAX_PRICE = 800000
   \<and> meetsFilters p = (desconto p \<noteq> None \<and> 40 \<le> the (desconto p) \<and> lance p \<le> 800000)
   \<and> meetsFilters scenarioA
   \<and> \<not> meetsFilters scenarioC"
  by (auto simp: meetsFilters_def MIN_DISCOUNT_def MAX_PRICE_def scenarioA_def scenarioC_def)

text \<open>
  C9. Deduplication never fabricates or alters a record. As multisets, the output of
  \<open>deduplicateProperties\<close> is contained in the flattened input: every output element is an
  input record with all its fields, a record occurs in the output at most as often as it
  occurs in the input, and the output is no longer than the input.
\<close>

theorem deduplicateProperties_submultiset:
  "mset (deduplicateProperties sources) \<subseteq># mset (concat sources)
   \<and> set (deduplicateProperties sources) \<subseteq> set (concat sources)
   \<and> count_list (deduplicateProperties sources) r \<le> count_list (concat sources) r
   \<and> length (deduplicateProperties sources) \<le> length (concat sources)"
proof -
  let ?out = "deduplicateProperties sources"
  have m: "mset ?out \<subseteq># mset (concat sources)"
    using foldl_dedupStep_mset [of "([], [])" "concat sources"]
    by (simp add: deduplicateProperties_def dedupLoop_def mset_arraySort Let_def)
  have s: "set ?out \<subseteq> set (concat sources)"
    using set_mset_mono [OF m] by simp
  have c: "count_list ?out r \<le> count_list (concat sources) r"
    using mset_subset_eq_count [OF m, of r] by (simp add: count_mset)
  have l: "length ?out \<le> length (concat sources)"
    using size_mset_mono [OF m] by simp
  from m s c l show ?thesis by blast
qed

text \<open>
  C10. \<open>markNewProperties\<close> is a map that touches one field: its output has the length
  and the order of \<open>current\<close>, and once \<open>novo\<close> is overwritten by the same value on both
  sides, the output and \<open>current\<close> are the same list, so the records agree position by
  position on every field other than \<open>novo\<close>.
\<close>

theorem markNewProperties_frame:
  "length (markNewProperties current previous) = length current
   \<and> map (\<lambda>q. q\<lparr>novo := v\<rparr>) (markNewProperties current previous)
       = map (\<lambda>p. p\<lparr>novo := v\<rparr>) current"
  by (simp add: markNewProperties_def)

end
